theory Spec2Isabelle
  imports Complex_Main
begin

section \<open>Block operators on product spaces (\<^verbatim>\<open>odl/operator/pspace_ops.py\<close>)\<close>

subsection \<open>Spaces, exceptions and sub-operators\<close>

text \<open>
  A space is either some base space (\<open>Rn(3)\<close>, a discretised function space, ...) or a
  \<open>ProductSpace\<close> of component spaces. The base spaces are a type parameter: the code
  only compares them with \<open>!=\<close> and asks \<open>isinstance(dom, ProductSpace)\<close>.
\<close>

datatype 'b space = Base 'b | ProductSpace "'b space list"

fun isinstance_ProductSpace :: "'b space \<Rightarrow> bool" where
  "isinstance_ProductSpace (ProductSpace _) = True"
| "isinstance_ProductSpace (Base _) = False"

fun spaces :: "'b space \<Rightarrow> 'b space list" where
  "spaces (ProductSpace cs) = cs"
| "spaces (Base _) = []"

text \<open>
  The messages of the four \<open>ValueError\<close>s of the constructor, with the values that
  \<open>format\<close> puts into them, and the exceptions the class can raise.
\<close>

datatype 'b message =
    ColumnInconsistent nat "'b space" "'b space"
  | RowInconsistent nat "'b space" "'b space"
  | ColEmpty nat
  | RowEmpty nat

datatype 'b error =
    TypeError
  | ValueError "'b message"
  | UnboundLocalError
  | IndexError
  | AttributeError
  | NotImplementedError

text \<open>
  A sub-operator, as far as this file uses the \<open>Operator\<close> interface: \<open>op.domain\<close>,
  \<open>op.range\<close>, \<open>op.is_linear\<close> and the evaluation \<open>op(x)\<close>. The in-place form
  \<open>op(x, out=o)\<close> leaves \<open>op(x)\<close> in \<open>o\<close>.
\<close>

record ('a, 'b) operator =
  op_domain :: "'b space"
  op_range :: "'b space"
  op_is_linear :: bool
  op_call :: "'a \<Rightarrow> 'a"

text \<open>
  An entry of the array handed to the constructor: falsy (\<open>0\<close> or \<open>None\<close>, the implicit
  zero operator), an \<open>Operator\<close> instance, or some other truthy object.
\<close>

datatype 'o entry = Absent | Op 'o | Other

fun isinstance_Operator :: "'o entry \<Rightarrow> bool" where
  "isinstance_Operator (Op _) = True"
| "isinstance_Operator _ = False"

text \<open>The rectangular array \<open>operators\<close>: its shape and its entries.\<close>

record 'e ndarray =
  nrows :: nat
  ncols :: nat
  entry_at :: "nat \<Rightarrow> nat \<Rightarrow> 'e"

text \<open>
  \<open>scipy.sparse.coo_matrix\<close>: the shape, and the coordinate list that
  \<open>zip(ops.row, ops.col, ops.data)\<close> walks through.
\<close>

record 'e coo =
  shape :: "nat \<times> nat"
  triples :: "(nat \<times> nat \<times> 'e) list"

text \<open>
  Modelled from the spec: \<open>scipy.sparse.coo_matrix\<close> applied to a dense array. The spec
  describes its result as a sparse coordinate list of \<open>(row, col, operator)\<close> triples with
  \<open>row \<in> [0, R)\<close> and \<open>col \<in> [0, C)\<close>, in row-major order, a \<open>0\<close> or absent entry being left
  out.
\<close>

definition coo_matrix :: "'o entry ndarray \<Rightarrow> 'o entry coo" where
  "coo_matrix operators =
     \<lparr> shape = (nrows operators, ncols operators),
       triples = concat (map (\<lambda>i. concat (map (\<lambda>j.
                    (case entry_at operators i j of Absent \<Rightarrow> [] | e \<Rightarrow> [(i, j, e)]))
                    [0..<ncols operators])) [0..<nrows operators]) \<rparr>"

subsection \<open>\<open>ProductSpaceOperator.__init__\<close>\<close>

record ('a, 'b) ProductSpaceOperator =
  pso_ops :: "('a, 'b) operator entry coo"
  pso_domain :: "'b space"
  pso_range :: "'b space"
  pso_is_linear :: bool

text \<open>
  The loop over the triples (source lines 106 to 119). The locals \<open>domains\<close> and \<open>ranges\<close>
  are assigned only when \<open>dom\<close>, respectively \<open>ran\<close>, is \<open>None\<close>; an unassigned local is
  \<open>None\<close> here and reading it raises \<open>UnboundLocalError\<close>. Their entries are \<open>None\<close> until
  the first operator of the column, respectively row, has been seen.
\<close>

fun infer_spaces ::
  "(nat \<times> nat \<times> ('a, 'b) operator entry) list \<Rightarrow>
   'b space option list option \<Rightarrow> 'b space option list option \<Rightarrow>
   'b error + ('b space option list option \<times> 'b space option list option)" where
  "infer_spaces [] domains ranges = Inr (domains, ranges)"
| "infer_spaces ((row, col, e) # rest) domains ranges =
     (case domains of
        None \<Rightarrow> Inl UnboundLocalError
      | Some ds \<Rightarrow>
          if length ds \<le> col then Inl IndexError
          else (case e of
            Op op \<Rightarrow>
              (case (case ds ! col of
                       None \<Rightarrow> Inr (ds[col := Some (op_domain op)])
                     | Some d \<Rightarrow>
                         if d \<noteq> op_domain op
                         then Inl (ValueError (ColumnInconsistent col d (op_domain op)))
                         else Inr ds) of
                 Inl err \<Rightarrow> Inl err
               | Inr ds' \<Rightarrow>
                   (case ranges of
                      None \<Rightarrow> Inl UnboundLocalError
                    | Some rs \<Rightarrow>
                        if length rs \<le> row then Inl IndexError
                        else (case rs ! row of
                          None \<Rightarrow>
                            infer_spaces rest (Some ds') (Some (rs[row := Some (op_range op)]))
                        | Some r \<Rightarrow>
                            if r \<noteq> op_range op
                            then Inl (ValueError (RowInconsistent row r (op_range op)))
                            else infer_spaces rest (Some ds') (Some rs))))
          | _ \<Rightarrow> Inl AttributeError))"

text \<open>
  The two closing blocks (lines 121 to 137): when the space was not given, the first
  column (row) without an operator raises, otherwise the product of the inferred spaces
  is taken.
\<close>

definition close_domain ::
  "'b space option \<Rightarrow> 'b space option list option \<Rightarrow> 'b error + 'b space" where
  "close_domain dom_in domains =
     (case dom_in of
        Some d \<Rightarrow> Inr d
      | None \<Rightarrow>
          (case domains of
             None \<Rightarrow> Inl UnboundLocalError
           | Some ds \<Rightarrow>
               (case find (\<lambda>col. ds ! col = None) [0..<length ds] of
                  Some col \<Rightarrow> Inl (ValueError (ColEmpty col))
                | None \<Rightarrow> Inr (ProductSpace (map the ds)))))"

definition close_range ::
  "'b space option \<Rightarrow> 'b space option list option \<Rightarrow> 'b error + 'b space" where
  "close_range ran_in ranges =
     (case ran_in of
        Some r \<Rightarrow> Inr r
      | None \<Rightarrow>
          (case ranges of
             None \<Rightarrow> Inl UnboundLocalError
           | Some rs \<Rightarrow>
               (case find (\<lambda>row. rs ! row = None) [0..<length rs] of
                  Some row \<Rightarrow> Inl (ValueError (RowEmpty row))
                | None \<Rightarrow> Inr (ProductSpace (map the rs)))))"

fun linear_of :: "('a, 'b) operator entry \<Rightarrow> bool" where
  "linear_of (Op op) = op_is_linear op"
| "linear_of _ = False"

definition new_ProductSpaceOperator ::
  "('a, 'b) operator entry ndarray \<Rightarrow> 'b space option \<Rightarrow> 'b space option \<Rightarrow>
   'b error + ('a, 'b) ProductSpaceOperator" where
  "new_ProductSpaceOperator operators dom_in ran_in =
     (if dom_in \<noteq> None \<and> \<not> isinstance_ProductSpace (the dom_in) then Inl TypeError
      else if ran_in \<noteq> None \<and> \<not> isinstance_ProductSpace (the ran_in) then Inl TypeError
      else
        (let ops = coo_matrix operators in
         if \<not> list_all (\<lambda>(row, col, e). isinstance_Operator e) (triples ops)
         then Inl TypeError
         else
           (let domains = (if dom_in = None then Some (replicate (snd (shape ops)) None) else None);
                ranges = (if ran_in = None then Some (replicate (fst (shape ops)) None) else None)
            in case infer_spaces (triples ops) domains ranges of
                 Inl err \<Rightarrow> Inl err
               | Inr (domains', ranges') \<Rightarrow>
                   (case close_domain dom_in domains' of
                      Inl err \<Rightarrow> Inl err
                    | Inr dom_out \<Rightarrow>
                        (case close_range ran_in ranges' of
                           Inl err \<Rightarrow> Inl err
                         | Inr ran_out \<Rightarrow>
                             Inr \<lparr> pso_ops = ops, pso_domain = dom_out, pso_range = ran_out,
                                   pso_is_linear =
                                     list_all (\<lambda>(row, col, e). linear_of e) (triples ops) \<rparr>)))))"

text \<open>
  The operator of the doctests, \<open>odl.IdentityOperator(odl.Rn(n))\<close>, with \<open>Rn(n)\<close> as the
  base space \<open>n\<close>.
\<close>

definition IdentityOperator :: "'b space \<Rightarrow> ('a, 'b) operator" where
  "IdentityOperator sp =
     \<lparr> op_domain = sp, op_range = sp, op_is_linear = True, op_call = (\<lambda>x. x) \<rparr>"

abbreviation Rn :: "nat \<Rightarrow> nat space" where
  "Rn n \<equiv> Base n"

text \<open>What the error of a consistency check has to name (claim C9).\<close>

definition in_column :: "('a, 'b) operator entry ndarray \<Rightarrow> nat \<Rightarrow> 'b space \<Rightarrow> bool" where
  "in_column operators c d \<longleftrightarrow>
     c < ncols operators \<and>
     (\<exists>i<nrows operators.
        case entry_at operators i c of Op op \<Rightarrow> op_domain op = d | _ \<Rightarrow> False)"

definition in_row :: "('a, 'b) operator entry ndarray \<Rightarrow> nat \<Rightarrow> 'b space \<Rightarrow> bool" where
  "in_row operators r s \<longleftrightarrow>
     r < nrows operators \<and>
     (\<exists>j<ncols operators.
        case entry_at operators r j of Op op \<Rightarrow> op_range op = s | _ \<Rightarrow> False)"

fun identifies :: "('a, 'b) operator entry ndarray \<Rightarrow> 'b message \<Rightarrow> bool" where
  "identifies operators (ColumnInconsistent c d1 d2) \<longleftrightarrow>
     d1 \<noteq> d2 \<and> in_column operators c d1 \<and> in_column operators c d2"
| "identifies operators (RowInconsistent r s1 s2) \<longleftrightarrow>
     s1 \<noteq> s2 \<and> in_row operators r s1 \<and> in_row operators r s2"
| "identifies operators _ \<longleftrightarrow> False"

subsection \<open>Evaluation: \<open>_call\<close> and \<open>_apply\<close>\<close>

text \<open>
  The elements of the component spaces are a type parameter, with the three operations of
  the element interface that the two methods use: \<open>space.zero()\<close>, the in-place sum
  \<open>a += b\<close> and the attribute \<open>element.space\<close>. An element of a product space is the
  list of its components; \<open>x[j]\<close> and \<open>out[i]\<close> raise \<open>IndexError\<close> out of range (the
  indices of a coordinate list are never negative). \<open>x\<close> and \<open>out\<close> are distinct objects.
\<close>

record ('a, 'b) elements =
  el_zero :: "'b space \<Rightarrow> 'a"
  el_add :: "'a \<Rightarrow> 'a \<Rightarrow> 'a"
  el_space :: "'a \<Rightarrow> 'b space"

text \<open>\<open>x in space\<close> for a product space: component by component.\<close>

definition in_pspace :: "('a, 'b) elements \<Rightarrow> 'b space \<Rightarrow> 'a list \<Rightarrow> bool" where
  "in_pspace E sp x \<longleftrightarrow> isinstance_ProductSpace sp \<and> map (el_space E) x = spaces sp"

text \<open>
  \<open>_call\<close> (lines 223 to 226): \<open>out = self.range.zero()\<close>, then \<open>out[i] += op(x[j])\<close> for
  every triple. The augmented assignment reads \<open>out[i]\<close> before it evaluates \<open>op(x[j])\<close>.
\<close>

fun call_loop ::
  "('a, 'b) elements \<Rightarrow> (nat \<times> nat \<times> ('a, 'b) operator entry) list \<Rightarrow>
   'a list \<Rightarrow> 'a list \<Rightarrow> 'b error + 'a list" where
  "call_loop E [] x out = Inr out"
| "call_loop E ((i, j, e) # rest) x out =
     (if length out \<le> i then Inl IndexError
      else if length x \<le> j then Inl IndexError
      else (case e of
        Op op \<Rightarrow> call_loop E rest x (out[i := el_add E (out ! i) (op_call op (x ! j))])
      | _ \<Rightarrow> Inl TypeError))"

definition pso_call ::
  "('a, 'b) elements \<Rightarrow> ('a, 'b) ProductSpaceOperator \<Rightarrow> 'a list \<Rightarrow> 'b error + 'a list" where
  "pso_call E self x =
     call_loop E (triples (pso_ops self)) x (map (el_zero E) (spaces (pso_range self)))"

text \<open>
  \<open>_apply\<close> (lines 162 to 174). \<open>self.range.size\<close> is the number of components of the
  range. The first loop carries \<open>out\<close> and \<open>has_evaluated_row\<close>; the second one walks
  through \<open>enumerate(has_evaluated_row)\<close>.
\<close>

fun apply_loop ::
  "('a, 'b) elements \<Rightarrow> (nat \<times> nat \<times> ('a, 'b) operator entry) list \<Rightarrow>
   'a list \<Rightarrow> 'a list \<Rightarrow> bool list \<Rightarrow> 'b error + ('a list \<times> bool list)" where
  "apply_loop E [] x out has_evaluated_row = Inr (out, has_evaluated_row)"
| "apply_loop E ((i, j, e) # rest) x out has_evaluated_row =
     (if length has_evaluated_row \<le> i then Inl IndexError
      else if \<not> has_evaluated_row ! i then
        (if length x \<le> j then Inl IndexError
         else if length out \<le> i then Inl IndexError
         else (case e of
           Op op \<Rightarrow>
             apply_loop E rest x (out[i := op_call op (x ! j)]) (has_evaluated_row[i := True])
         | _ \<Rightarrow> Inl TypeError))
      else
        (if length out \<le> i then Inl IndexError
         else if length x \<le> j then Inl IndexError
         else (case e of
           Op op \<Rightarrow>
             apply_loop E rest x (out[i := el_add E (out ! i) (op_call op (x ! j))])
               (has_evaluated_row[i := True])
         | _ \<Rightarrow> Inl TypeError)))"

fun zero_fill ::
  "('a, 'b) elements \<Rightarrow> (nat \<times> bool) list \<Rightarrow> 'a list \<Rightarrow> 'b error + 'a list" where
  "zero_fill E [] out = Inr out"
| "zero_fill E ((i, evaluated) # rest) out =
     (if \<not> evaluated then
        (if length out \<le> i then Inl IndexError
         else zero_fill E rest (out[i := el_zero E (el_space E (out ! i))]))
      else zero_fill E rest out)"

definition pso_apply ::
  "('a, 'b) elements \<Rightarrow> ('a, 'b) ProductSpaceOperator \<Rightarrow> 'a list \<Rightarrow> 'a list \<Rightarrow>
   'b error + 'a list" where
  "pso_apply E self x out =
     (case apply_loop E (triples (pso_ops self)) x out
             (replicate (length (spaces (pso_range self))) False) of
        Inl err \<Rightarrow> Inl err
      | Inr (out', has_evaluated_row) \<Rightarrow>
          zero_fill E (zip [0..<length has_evaluated_row] has_evaluated_row) out')"

text \<open>
  The invariant of the stored triples (the "sparse block matrix of operators" of the
  operator's data model): every stored entry is an \<open>Operator\<close>, its row lies inside the
  range and its column inside the domain.
\<close>

definition well_formed :: "('a, 'b) ProductSpaceOperator \<Rightarrow> bool" where
  "well_formed self \<longleftrightarrow>
     list_all (\<lambda>(i, j, e). i < length (spaces (pso_range self)) \<and>
                           j < length (spaces (pso_domain self)) \<and> isinstance_Operator e)
       (triples (pso_ops self))"

text \<open>
  What claims C3 and C7 speak of: the values \<open>op[i,j](x[j])\<close> of the blocks present in row
  \<open>i\<close> of the array, by increasing column, and the same values read off a list of triples.
\<close>

definition block_values :: "('a, 'b) operator entry ndarray \<Rightarrow> 'a list \<Rightarrow> nat \<Rightarrow> 'a list" where
  "block_values operators x i =
     (if i < nrows operators
      then concat (map (\<lambda>j. (case entry_at operators i j of
                                  Op op \<Rightarrow> [op_call op (x ! j)] | _ \<Rightarrow> []))
                    [0..<ncols operators])
      else [])"

fun row_terms ::
  "(nat \<times> nat \<times> ('a, 'b) operator entry) list \<Rightarrow> 'a list \<Rightarrow> nat \<Rightarrow> 'a list" where
  "row_terms [] x i = []"
| "row_terms ((i', j, Op op) # rest) x i =
     (if i' = i then op_call op (x ! j) # row_terms rest x i else row_terms rest x i)"
| "row_terms (_ # rest) x i = row_terms rest x i"

text \<open>The vectors of \<open>Rn(n)\<close> as lists of reals.\<close>

definition Rn_elements :: "(real list, nat) elements" where
  "Rn_elements =
     \<lparr> el_zero = (\<lambda>sp. case sp of Base n \<Rightarrow> replicate n 0 | ProductSpace _ \<Rightarrow> []),
       el_add = (\<lambda>a b. map2 (+) a b),
       el_space = (\<lambda>v. Base (length v)) \<rparr>"

text \<open>
  Bookkeeping for the proofs about the loop: the domains seen in a column and the ranges
  seen in a row of a list of triples, the loop invariant (an entry of \<open>domains\<close> is the
  one domain seen in its column, or \<open>None\<close> when the column is still empty), and what an
  error of the loop says about the triples.
\<close>

definition col_doms :: "(nat \<times> nat \<times> ('a, 'b) operator entry) list \<Rightarrow> nat \<Rightarrow> 'b space set" where
  "col_doms ts c = {op_domain op | i op. (i, c, Op op) \<in> set ts}"

definition row_rans :: "(nat \<times> nat \<times> ('a, 'b) operator entry) list \<Rightarrow> nat \<Rightarrow> 'b space set" where
  "row_rans ts r = {op_range op | j op. (r, j, Op op) \<in> set ts}"

definition seen :: "(nat \<times> nat \<times> ('a, 'b) operator entry) list \<Rightarrow> 'b space option list \<Rightarrow> 'b space option list \<Rightarrow> bool" where
  "seen ts ds rs \<longleftrightarrow>
     (\<forall>c<length ds. col_doms ts c = set_option (ds ! c)) \<and>
     (\<forall>r<length rs. row_rans ts r = set_option (rs ! r))"

fun conflict_in :: "(nat \<times> nat \<times> ('a, 'b) operator entry) list \<Rightarrow> 'b error \<Rightarrow> bool" where
  "conflict_in ts (ValueError (ColumnInconsistent c d1 d2)) \<longleftrightarrow> d1 \<noteq> d2 \<and> d1 \<in> col_doms ts c \<and> d2 \<in> col_doms ts c"
| "conflict_in ts (ValueError (RowInconsistent r s1 s2)) \<longleftrightarrow> s1 \<noteq> s2 \<and> s1 \<in> row_rans ts r \<and> s2 \<in> row_rans ts r"
| "conflict_in ts _ \<longleftrightarrow> False"

text \<open>Arrays of the examples: \<open>[[I3]]\<close> and the column \<open>[[I3], [I2]]\<close>.\<close>

definition A11 :: "(real list, nat) operator entry ndarray" where
  "A11 = \<lparr> nrows = 1, ncols = 1, entry_at = (\<lambda>i j. Op (IdentityOperator (Rn 3))) \<rparr>"

definition A21 :: "(real list, nat) operator entry ndarray" where
  "A21 = \<lparr> nrows = 2, ncols = 1,
           entry_at = (\<lambda>i j. if i = 0 then Op (IdentityOperator (Rn 3)) else Op (IdentityOperator (Rn 2))) \<rparr>"


text \<open>The doctest array \<open>[[I, I], [I, 0]]\<close> and the operator built from it.\<close>

definition A22 :: "(real list, nat) operator entry ndarray" where
  "A22 = \<lparr> nrows = 2, ncols = 2,
           entry_at = (\<lambda>i j. if i = 1 \<and> j = 1 then Absent else Op (IdentityOperator (Rn 3))) \<rparr>"

definition P22 :: "(real list, nat) ProductSpaceOperator" where
  "P22 = \<lparr> pso_ops = coo_matrix A22, pso_domain = ProductSpace [Rn 3, Rn 3],
           pso_range = ProductSpace [Rn 3, Rn 3], pso_is_linear = True \<rparr>"

text \<open>
  The operator with the single block \<open>I\<close> at \<open>(0, 0)\<close> between \<open>ProductSpace(Rn(3))\<close> and
  \<open>ProductSpace(Rn(3), Rn(3))\<close>: its row \<open>0\<close> has a block and its row \<open>1\<close> has none.
\<close>

definition P21 :: "(real list, nat) ProductSpaceOperator" where
  "P21 = \<lparr> pso_ops = \<lparr> shape = (2, 1), triples = [(0, 0, Op (IdentityOperator (Rn 3)))] \<rparr>,
           pso_domain = ProductSpace [Rn 3], pso_range = ProductSpace [Rn 3, Rn 3],
           pso_is_linear = True \<rparr>"

text \<open>An array without operators, and the operator built from it with explicit spaces.\<close>

definition A00 :: "(real list, nat) operator entry ndarray" where
  "A00 = \<lparr> nrows = 1, ncols = 1, entry_at = (\<lambda>i j. Absent) \<rparr>"

definition P00 :: "(real list, nat) ProductSpaceOperator" where
  "P00 = \<lparr> pso_ops = coo_matrix A00, pso_domain = ProductSpace [Rn 3],
           pso_range = ProductSpace [Rn 3], pso_is_linear = True \<rparr>"

subsection \<open>\<open>ComponentProjection\<close> and \<open>ComponentProjectionAdjoint\<close>\<close>

text \<open>
  Both classes index the space they are given, \<open>space[index]\<close>, and
  \<open>ComponentProjection\<close> indexes its argument, \<open>x[self.index]\<close>. The two indexing
  operations belong to \<open>ProductSpace\<close> and its elements and are parameters here:
  \<open>getitem\<close> for spaces and \<open>elem_getitem\<close> for elements, both of which may raise.
  The index is any value (the code stores it and passes it on).
\<close>

record ('i, 'b) ComponentProjection =
  cp_index :: 'i
  cp_domain :: "'b space"
  cp_range :: "'b space"
  cp_is_linear :: bool

record ('i, 'b) ComponentProjectionAdjoint =
  cpa_index :: 'i
  cpa_domain :: "'b space"
  cpa_range :: "'b space"
  cpa_is_linear :: bool

definition new_ComponentProjection ::
  "('b space \<Rightarrow> 'i \<Rightarrow> 'b error + 'b space) \<Rightarrow> 'b space \<Rightarrow> 'i \<Rightarrow>
   'b error + ('i, 'b) ComponentProjection" where
  "new_ComponentProjection getitem space index =
     (case getitem space index of
        Inl err \<Rightarrow> Inl err
      | Inr sub \<Rightarrow>
          Inr \<lparr> cp_index = index, cp_domain = space, cp_range = sub, cp_is_linear = True \<rparr>)"

definition new_ComponentProjectionAdjoint ::
  "('b space \<Rightarrow> 'i \<Rightarrow> 'b error + 'b space) \<Rightarrow> 'b space \<Rightarrow> 'i \<Rightarrow>
   'b error + ('i, 'b) ComponentProjectionAdjoint" where
  "new_ComponentProjectionAdjoint getitem space index =
     (case getitem space index of
        Inl err \<Rightarrow> Inl err
      | Inr sub \<Rightarrow>
          Inr \<lparr> cpa_index = index, cpa_domain = sub, cpa_range = space, cpa_is_linear = True \<rparr>)"

text \<open>\<open>_call\<close> returns \<open>x[self.index].copy()\<close>; \<open>_apply\<close> assigns \<open>x[self.index]\<close> to \<open>out\<close>.\<close>

definition cp_call ::
  "('x \<Rightarrow> 'i \<Rightarrow> 'b error + 'y) \<Rightarrow> ('i, 'b) ComponentProjection \<Rightarrow> 'x \<Rightarrow> 'b error + 'y" where
  "cp_call elem_getitem self x = elem_getitem x (cp_index self)"

definition cp_apply ::
  "('x \<Rightarrow> 'i \<Rightarrow> 'b error + 'y) \<Rightarrow> ('i, 'b) ComponentProjection \<Rightarrow> 'x \<Rightarrow> 'y \<Rightarrow> 'b error + 'y" where
  "cp_apply elem_getitem self x out =
     (case elem_getitem x (cp_index self) of Inl err \<Rightarrow> Inl err | Inr v \<Rightarrow> Inr v)"

text \<open>The two \<open>adjoint\<close> properties (lines 325 to 334 and 398 to 406).\<close>

definition cp_adjoint ::
  "('b space \<Rightarrow> 'i \<Rightarrow> 'b error + 'b space) \<Rightarrow> ('i, 'b) ComponentProjection \<Rightarrow>
   'b error + ('i, 'b) ComponentProjectionAdjoint" where
  "cp_adjoint getitem self =
     new_ComponentProjectionAdjoint getitem (cp_domain self) (cp_index self)"

definition cpa_adjoint ::
  "('b space \<Rightarrow> 'i \<Rightarrow> 'b error + 'b space) \<Rightarrow> ('i, 'b) ComponentProjectionAdjoint \<Rightarrow>
   'b error + ('i, 'b) ComponentProjection" where
  "cpa_adjoint getitem self =
     new_ComponentProjection getitem (cpa_range self) (cpa_index self)"

text \<open>
  Modelled from the spec: indexing of a \<open>ProductSpace\<close> and of its elements, which the spec
  describes as "indexing by an integer, a slice, or an iterable of integers yields a
  sub-space (single component, a sub-product, or a derived product space respectively) and
  analogously for elements". Integers index as in a Python sequence (negative ones count
  from the end, out of range raises \<open>IndexError\<close>); a slice is given by the list of
  positions it selects.
\<close>

datatype index = IntIndex int | ListIndex "int list"

definition py_getitem :: "'x list \<Rightarrow> int \<Rightarrow> 'x option" where
  "py_getitem xs i =
     (let n = int (length xs); k = (if i < 0 then i + n else i)
      in if 0 \<le> k \<and> k < n then Some (xs ! nat k) else None)"

fun py_getitems :: "'x list \<Rightarrow> int list \<Rightarrow> 'x list option" where
  "py_getitems xs [] = Some []"
| "py_getitems xs (i # rest) =
     (case py_getitem xs i of
        None \<Rightarrow> None
      | Some v \<Rightarrow> (case py_getitems xs rest of None \<Rightarrow> None | Some vs \<Rightarrow> Some (v # vs)))"

fun pspace_getitem :: "'b space \<Rightarrow> index \<Rightarrow> 'b error + 'b space" where
  "pspace_getitem (ProductSpace cs) (IntIndex i) =
     (case py_getitem cs i of None \<Rightarrow> Inl IndexError | Some c \<Rightarrow> Inr c)"
| "pspace_getitem (ProductSpace cs) (ListIndex js) =
     (case py_getitems cs js of None \<Rightarrow> Inl IndexError | Some sub \<Rightarrow> Inr (ProductSpace sub))"
| "pspace_getitem (Base _) _ = Inl TypeError"

text \<open>An element of a product space, or one of its components.\<close>

datatype 'a element = Component 'a | Tuple "'a list"

fun element_getitem :: "'a element \<Rightarrow> index \<Rightarrow> 'b error + 'a element" where
  "element_getitem (Tuple xs) (IntIndex i) =
     (case py_getitem xs i of None \<Rightarrow> Inl IndexError | Some c \<Rightarrow> Inr (Component c))"
| "element_getitem (Tuple xs) (ListIndex js) =
     (case py_getitems xs js of None \<Rightarrow> Inl IndexError | Some sub \<Rightarrow> Inr (Tuple sub))"
| "element_getitem (Component _) _ = Inl TypeError"

text \<open>The space \<open>ProductSpace(Rn(1), Rn(2), Rn(3))\<close> of the doctests.\<close>

definition X123 :: "nat space" where
  "X123 = ProductSpace [Rn 1, Rn 2, Rn 3]"

section \<open>Quasi-Newton solvers (\<^verbatim>\<open>odl/solvers/smooth/newton.py\<close>)\<close>

subsection \<open>Elements, functionals, line searches and callbacks\<close>

text \<open>
  The points, gradients and directions of a solver are elements of one space, a real
  vector space \<open>'a\<close>: \<open>a + b\<close>, \<open>a - b\<close>, \<open>- a\<close> and \<open>c *\<^sub>R a\<close> are the element
  arithmetic. Scalars are real numbers, so rounding is not modelled. The inner product is
  a parameter \<open>ip\<close> of every function below, \<open>a.inner(b)\<close> being \<open>ip a b\<close>. An element that
  the code updates in place is passed on as its new value.

  Modelled from the spec: \<open>lincomb(a, x, b, y)\<close>, which the spec gives as the in-place
  \<open>self = a*x + b*y\<close>.
\<close>

definition lincomb :: "real \<Rightarrow> 'a::real_vector \<Rightarrow> real \<Rightarrow> 'a \<Rightarrow> 'a" where
  "lincomb a x b y = a *\<^sub>R x + b *\<^sub>R y"

text \<open>
  What the solvers use of the functional \<open>f\<close>: its gradient \<open>f.gradient\<close> as a function,
  the test \<open>x in grad.domain\<close>, \<open>grad.derivative(x)\<close> (the Hessian at \<open>x\<close>, an operator) and
  \<open>grad.domain.size\<close>.
\<close>

record 'a functional =
  f_gradient :: "'a \<Rightarrow> 'a"
  f_in_domain :: "'a \<Rightarrow> bool"
  f_derivative :: "'a \<Rightarrow> 'a \<Rightarrow> 'a"
  f_domain_size :: nat

text \<open>
  The argument \<open>line_search\<close> is a number or a callable. Modelled from the spec:
  \<open>ConstantLineSearch\<close>, of which the spec says that a numeric value is wrapped as a
  constant-step strategy.
\<close>

datatype 'a line_search = Fixed real | Strategy "'a \<Rightarrow> 'a \<Rightarrow> real \<Rightarrow> real"

fun as_callable :: "'a line_search \<Rightarrow> 'a \<Rightarrow> 'a \<Rightarrow> real \<Rightarrow> real" where
  "as_callable (Fixed c) = (\<lambda>x direction dir_derivative. c)"
| "as_callable (Strategy s) = s"

text \<open>
  The callback is \<open>None\<close> or a callable; calling it with \<open>x\<close> changes whatever the callback
  keeps (a plot, a list of iterates), a value of type \<open>'c\<close>.
\<close>

fun call_callback :: "('a \<Rightarrow> 'c \<Rightarrow> 'c) option \<Rightarrow> 'a \<Rightarrow> 'c \<Rightarrow> 'c" where
  "call_callback None x kept = kept"
| "call_callback (Some callback) x kept = callback x kept"

text \<open>
  The exceptions of the solvers: the \<open>TypeError\<close> at entry for a starting point outside
  the domain of the gradient, the failing \<open>assert\<close> of \<open>_bfgs_multiply\<close>, and a float
  division by zero.
\<close>

datatype solver_error = NotInDomain | AssertionError | ZeroDivisionError

text \<open>
  One pass through the body of \<open>for _ in range(maxiter)\<close> either reaches the end of the
  body or executes \<open>return\<close>; both leave a state. The loop runs the body at most
  \<open>maxiter\<close> times.
\<close>

datatype 'st outcome = Continue 'st | Return 'st

fun for_range ::
  "nat \<Rightarrow> ('st \<Rightarrow> solver_error + 'st outcome) \<Rightarrow> 'st \<Rightarrow> solver_error + 'st" where
  "for_range 0 body st = Inr st"
| "for_range (Suc n) body st =
     (case body st of
        Inl err \<Rightarrow> Inl err
      | Inr (Return st') \<Rightarrow> Inr st'
      | Inr (Continue st') \<Rightarrow> for_range n body st')"

subsection \<open>\<open>_bfgs_multiply\<close>\<close>

text \<open>
  The two loops of lines 70 to 73 and 78 to 80 over the indices, with the arrays \<open>alphas\<close>
  and \<open>rhos\<close>. The indices come from \<open>range(len(s))\<close> and the lengths of \<open>s\<close>, \<open>y\<close> and of
  both arrays agree after the \<open>assert\<close>, so that no index is out of range.
\<close>

fun backward_loop ::
  "('a::real_vector \<Rightarrow> 'a \<Rightarrow> real) \<Rightarrow> 'a list \<Rightarrow> 'a list \<Rightarrow> nat list \<Rightarrow>
   'a \<Rightarrow> real list \<Rightarrow> real list \<Rightarrow> solver_error + ('a \<times> real list \<times> real list)" where
  "backward_loop ip s y [] r alphas rhos = Inr (r, alphas, rhos)"
| "backward_loop ip s y (i # rest) r alphas rhos =
     (if ip (y ! i) (s ! i) = 0 then Inl ZeroDivisionError
      else
        (let rhos' = rhos[i := 1 / ip (y ! i) (s ! i)];
             alphas' = alphas[i := rhos' ! i * ip (s ! i) r];
             r' = lincomb 1 r (- (alphas' ! i)) (y ! i)
         in backward_loop ip s y rest r' alphas' rhos'))"

fun forward_loop ::
  "('a::real_vector \<Rightarrow> 'a \<Rightarrow> real) \<Rightarrow> 'a list \<Rightarrow> 'a list \<Rightarrow> nat list \<Rightarrow>
   'a \<Rightarrow> real list \<Rightarrow> real list \<Rightarrow> 'a" where
  "forward_loop ip s y [] r alphas rhos = r"
| "forward_loop ip s y (i # rest) r alphas rhos =
     (let beta = rhos ! i * ip (y ! i) r;
          r' = lincomb 1 r (alphas ! i - beta) (s ! i)
      in forward_loop ip s y rest r' alphas rhos)"

definition bfgs_multiply ::
  "('a::real_vector \<Rightarrow> 'a \<Rightarrow> real) \<Rightarrow> 'a list \<Rightarrow> 'a list \<Rightarrow> 'a \<Rightarrow> ('a \<Rightarrow> 'a) option \<Rightarrow>
   solver_error + 'a" where
  "bfgs_multiply ip s y x hessinv_estimate =
     (if length s \<noteq> length y then Inl AssertionError
      else
        (case backward_loop ip s y (rev [0..<length s]) x
                (replicate (length s) 0) (replicate (length s) 0) of
           Inl err \<Rightarrow> Inl err
         | Inr (r, alphas, rhos) \<Rightarrow>
             (let r' = (case hessinv_estimate of None \<Rightarrow> r | Some H \<Rightarrow> H r)
              in Inr (forward_loop ip s y [0..<length s] r' alphas rhos))))"

subsection \<open>\<open>newtons_method\<close>\<close>

text \<open>
  The state of the loop is the point \<open>x\<close> and what the callback keeps. The linear solver
  \<open>conjugate_gradient(hessian, search_direction, rhs, niter)\<close> is a parameter \<open>cg\<close>: it
  returns the new value of \<open>search_direction\<close>.
\<close>

record ('a, 'c) newton_state =
  nt_x :: 'a
  nt_kept :: 'c


definition newton_body ::
  "('a::real_vector \<Rightarrow> 'a \<Rightarrow> real) \<Rightarrow> (('a \<Rightarrow> 'a) \<Rightarrow> 'a \<Rightarrow> 'a \<Rightarrow> int \<Rightarrow> 'a) \<Rightarrow>
   'a functional \<Rightarrow> ('a \<Rightarrow> 'a \<Rightarrow> real \<Rightarrow> real) \<Rightarrow> real \<Rightarrow> int \<Rightarrow>
   ('a \<Rightarrow> 'c \<Rightarrow> 'c) option \<Rightarrow> ('a, 'c) newton_state \<Rightarrow>
   solver_error + ('a, 'c) newton_state outcome" where
  "newton_body ip cg f line_search tol cg_iter callback st =
     (let x = nt_x st;
          hessian = f_derivative f x;
          deriv_in_point = f_gradient f x;
          search_direction = cg hessian 0 (- deriv_in_point) cg_iter;
          dir_deriv = ip search_direction deriv_in_point
      in if \<bar>dir_deriv\<bar> \<le> tol then Inr (Return st)
         else
           (let step_length = line_search x search_direction dir_deriv;
                x' = x + step_length *\<^sub>R search_direction
            in Inr (Continue \<lparr> nt_x = x', nt_kept = call_callback callback x' (nt_kept st) \<rparr>)))"

definition newtons_method ::
  "('a::real_vector \<Rightarrow> 'a \<Rightarrow> real) \<Rightarrow> (('a \<Rightarrow> 'a) \<Rightarrow> 'a \<Rightarrow> 'a \<Rightarrow> int \<Rightarrow> 'a) \<Rightarrow>
   'a functional \<Rightarrow> 'a \<Rightarrow> 'a line_search \<Rightarrow> int \<Rightarrow> real \<Rightarrow> int option \<Rightarrow>
   ('a \<Rightarrow> 'c \<Rightarrow> 'c) option \<Rightarrow> 'c \<Rightarrow> solver_error + ('a, 'c) newton_state" where
  "newtons_method ip cg f x line_search maxiter tol cg_iter callback kept =
     (if \<not> f_in_domain f x then Inl NotInDomain
      else
        (let cg_iter' = (case cg_iter of None \<Rightarrow> int (f_domain_size f) | Some n \<Rightarrow> n)
         in for_range (nat maxiter)
              (newton_body ip cg f (as_callable line_search) tol cg_iter' callback)
              \<lparr> nt_x = x, nt_kept = kept \<rparr>))"

subsection \<open>\<open>bfgs_method\<close>\<close>

text \<open>
  The state of the loop: \<open>x\<close>, \<open>grad_x\<close>, the lists \<open>ss\<close> and \<open>ys\<close> and what the callback
  keeps. \<open>xs[start:]\<close> is the Python slice with an open end.
\<close>

record ('a, 'c) bfgs_state =
  b_x :: 'a
  b_grad_x :: 'a
  b_ss :: "'a list"
  b_ys :: "'a list"
  b_kept :: 'c

definition slice_from :: "'x list \<Rightarrow> int \<Rightarrow> 'x list" where
  "slice_from xs start =
     (let n = int (length xs);
          k = (if start < 0 then max (start + n) 0 else min start n)
      in drop (nat k) xs)"

text \<open>
  Line 256: the search direction. The call passes \<open>ys\<close> for the parameter \<open>s\<close> and \<open>ss\<close>
  for the parameter \<open>y\<close> of \<open>_bfgs_multiply\<close>.
\<close>

definition bfgs_search_dir ::
  "('a::real_vector \<Rightarrow> 'a \<Rightarrow> real) \<Rightarrow> ('a \<Rightarrow> 'a) option \<Rightarrow> ('a, 'c) bfgs_state \<Rightarrow>
   solver_error + 'a" where
  "bfgs_search_dir ip hessinv_estimate st =
     (case bfgs_multiply ip (b_ys st) (b_ss st) (b_grad_x st) hessinv_estimate of
        Inl err \<Rightarrow> Inl err
      | Inr r \<Rightarrow> Inr (- r))"

definition bfgs_body ::
  "('a::real_vector \<Rightarrow> 'a \<Rightarrow> real) \<Rightarrow> 'a functional \<Rightarrow> ('a \<Rightarrow> 'a \<Rightarrow> real \<Rightarrow> real) \<Rightarrow>
   real \<Rightarrow> int option \<Rightarrow> ('a \<Rightarrow> 'a) option \<Rightarrow> ('a \<Rightarrow> 'c \<Rightarrow> 'c) option \<Rightarrow>
   ('a, 'c) bfgs_state \<Rightarrow> solver_error + ('a, 'c) bfgs_state outcome" where
  "bfgs_body ip f line_search tol maxcor hessinv_estimate callback st =
     (case bfgs_search_dir ip hessinv_estimate st of
        Inl err \<Rightarrow> Inl err
      | Inr search_dir \<Rightarrow>
          (let dir_deriv = ip search_dir (b_grad_x st)
           in if \<bar>dir_deriv\<bar> < tol then Inr (Return st)
              else
                (let step = line_search (b_x st) search_dir dir_deriv;
                     x_update = step *\<^sub>R search_dir;
                     x = b_x st + x_update;
                     grad_x = f_gradient f x;
                     grad_diff = lincomb (- 1) (b_grad_x st) 1 grad_x;
                     y_inner_s = ip grad_diff x_update
                 in if \<bar>y_inner_s\<bar> < tol
                    then Inr (Return (st\<lparr> b_x := x, b_grad_x := grad_x \<rparr>))
                    else
                      (let ss = b_ss st @ [grad_diff];
                           ys = b_ys st @ [x_update];
                           ss' = (case maxcor of None \<Rightarrow> ss | Some m \<Rightarrow> slice_from ss (- m));
                           ys' = (case maxcor of None \<Rightarrow> ys | Some m \<Rightarrow> slice_from ys (- m))
                       in Inr (Continue
                            \<lparr> b_x = x, b_grad_x = grad_x, b_ss = ss', b_ys = ys',
                              b_kept = call_callback callback x (b_kept st) \<rparr>)))))"

definition bfgs_init :: "'a functional \<Rightarrow> 'a \<Rightarrow> 'c \<Rightarrow> ('a, 'c) bfgs_state" where
  "bfgs_init f x kept =
     \<lparr> b_x = x, b_grad_x = f_gradient f x, b_ss = [], b_ys = [], b_kept = kept \<rparr>"

definition bfgs_method ::
  "('a::real_vector \<Rightarrow> 'a \<Rightarrow> real) \<Rightarrow> 'a functional \<Rightarrow> 'a \<Rightarrow> 'a line_search \<Rightarrow> int \<Rightarrow>
   real \<Rightarrow> int option \<Rightarrow> ('a \<Rightarrow> 'a) option \<Rightarrow> ('a \<Rightarrow> 'c \<Rightarrow> 'c) option \<Rightarrow> 'c \<Rightarrow>
   solver_error + ('a, 'c) bfgs_state" where
  "bfgs_method ip f x line_search maxiter tol maxcor hessinv_estimate callback kept =
     (if \<not> f_in_domain f x then Inl NotInDomain
      else for_range (nat maxiter)
             (bfgs_body ip f (as_callable line_search) tol maxcor hessinv_estimate callback)
             (bfgs_init f x kept))"

subsection \<open>\<open>broydens_method\<close>\<close>

text \<open>
  The state of the loop: \<open>x\<close>, \<open>grad_x\<close>, the operator \<open>hess\<close> and what the callback keeps.

  Modelled from the spec: the operator algebra of lines 365 and 371. \<open>v.T\<close> is the
  functional that takes \<open>z\<close> to its inner product with \<open>v\<close>, \<open>u * functional\<close> takes \<open>z\<close> to
  \<open>functional(z)\<close> times \<open>u\<close>, \<open>A + B\<close> is the pointwise sum and \<open>A * B\<close> the composition: the
  spec writes the two updates as \<open>H \<leftarrow> (I + u\<cdot>\<Delta>x\<^sup>t) \<circ> H\<close> and \<open>H \<leftarrow> H + u\<cdot>\<Delta>g\<^sup>t\<close>.
\<close>

record ('a, 'c) broyden_state =
  br_x :: 'a
  br_grad_x :: 'a
  br_hess :: "'a \<Rightarrow> 'a"
  br_kept :: 'c

definition transpose :: "('a \<Rightarrow> 'a \<Rightarrow> real) \<Rightarrow> 'a \<Rightarrow> 'a \<Rightarrow> real" where
  "transpose ip v = (\<lambda>z. ip z v)"

definition vector_times :: "'a::real_vector \<Rightarrow> ('a \<Rightarrow> real) \<Rightarrow> 'a \<Rightarrow> 'a" where
  "vector_times u functional = (\<lambda>z. functional z *\<^sub>R u)"

definition operator_sum :: "('a::real_vector \<Rightarrow> 'a) \<Rightarrow> ('a \<Rightarrow> 'a) \<Rightarrow> 'a \<Rightarrow> 'a" where
  "operator_sum A B = (\<lambda>z. A z + B z)"

definition operator_comp :: "('a \<Rightarrow> 'a) \<Rightarrow> ('a \<Rightarrow> 'a) \<Rightarrow> 'a \<Rightarrow> 'a" where
  "operator_comp A B = (\<lambda>z. A (B z))"

definition ident :: "'a \<Rightarrow> 'a" where
  "ident = (\<lambda>z. z)"

text \<open>Lines 359 to 371: the update of \<open>hess\<close>, which may return or divide by zero.\<close>

definition update_hessian ::
  "('a::real_vector \<Rightarrow> 'a \<Rightarrow> real) \<Rightarrow> string \<Rightarrow> real \<Rightarrow> ('a \<Rightarrow> 'a) \<Rightarrow> 'a \<Rightarrow> 'a \<Rightarrow> 'a \<Rightarrow>
   solver_error + ('a \<Rightarrow> 'a) option" where
  "update_hessian ip impl tol hess search_dir delta_x delta_grad =
     (let v = hess delta_grad
      in if impl = ''first'' then
           (let divisor = ip delta_x v
            in if \<bar>divisor\<bar> < tol then Inr None
               else if divisor = 0 then Inl ZeroDivisionError
               else
                 (let u = (1 / divisor) *\<^sub>R (search_dir - v)
                  in Inr (Some (operator_comp
                       (operator_sum ident (vector_times u (transpose ip delta_x))) hess))))
         else if impl = ''second'' then
           (let divisor = ip delta_grad delta_grad
            in if \<bar>divisor\<bar> < tol then Inr None
               else if divisor = 0 then Inl ZeroDivisionError
               else
                 (let u = (1 / divisor) *\<^sub>R (search_dir - v)
                  in Inr (Some (operator_sum hess (vector_times u (transpose ip delta_grad))))))
         else Inr (Some hess))"

definition broyden_body ::
  "('a::real_vector \<Rightarrow> 'a \<Rightarrow> real) \<Rightarrow> 'a functional \<Rightarrow> ('a \<Rightarrow> 'a \<Rightarrow> real \<Rightarrow> real) \<Rightarrow>
   string \<Rightarrow> real \<Rightarrow> ('a \<Rightarrow> 'c \<Rightarrow> 'c) option \<Rightarrow>
   ('a, 'c) broyden_state \<Rightarrow> solver_error + ('a, 'c) broyden_state outcome" where
  "broyden_body ip f line_search impl tol callback st =
     (let search_dir = - br_hess st (br_grad_x st);
          dir_deriv = ip search_dir (br_grad_x st)
      in if \<bar>dir_deriv\<bar> < tol then Inr (Return st)
         else
           (let step = line_search (br_x st) search_dir dir_deriv;
                delta_x = step *\<^sub>R search_dir;
                x = br_x st + delta_x;
                grad_x = f_gradient f x;
                delta_grad = grad_x - br_grad_x st
            in case update_hessian ip impl tol (br_hess st) search_dir delta_x delta_grad of
                 Inl err \<Rightarrow> Inl err
               | Inr None \<Rightarrow> Inr (Return (st\<lparr> br_x := x, br_grad_x := grad_x \<rparr>))
               | Inr (Some hess) \<Rightarrow>
                   Inr (Continue
                     \<lparr> br_x = x, br_grad_x = grad_x, br_hess = hess,
                       br_kept = call_callback callback x (br_kept st) \<rparr>)))"

definition broydens_method ::
  "('a::real_vector \<Rightarrow> 'a \<Rightarrow> real) \<Rightarrow> 'a functional \<Rightarrow> 'a \<Rightarrow> 'a line_search \<Rightarrow> string \<Rightarrow>
   int \<Rightarrow> real \<Rightarrow> ('a \<Rightarrow> 'c \<Rightarrow> 'c) option \<Rightarrow> 'c \<Rightarrow>
   solver_error + ('a, 'c) broyden_state" where
  "broydens_method ip f x line_search impl maxiter tol callback kept =
     (if \<not> f_in_domain f x then Inl NotInDomain
      else for_range (nat maxiter)
             (broyden_body ip f (as_callable line_search) impl tol callback)
             \<lparr> br_x = x, br_grad_x = f_gradient f x, br_hess = ident, br_kept = kept \<rparr>)"

subsection \<open>Quantities the claims speak of, and a test problem\<close>



text \<open>
  The test problem: \<open>f(x) = x\<^sup>2 / 2\<close> on the real line, with gradient \<open>x\<close> and the identity
  as Hessian; the product as inner product; a linear solver that is exact when the
  operator is the identity; a callback that appends the iterate to a list.
\<close>

definition quadratic :: "real functional" where
  "quadratic =
     \<lparr> f_gradient = (\<lambda>x. x), f_in_domain = (\<lambda>x. True), f_derivative = (\<lambda>x p. p),
       f_domain_size = 1 \<rparr>"

definition times :: "real \<Rightarrow> real \<Rightarrow> real" where
  "times a b = a * b"


definition append_iterate :: "real \<Rightarrow> real list \<Rightarrow> real list" where
  "append_iterate x kept = kept @ [x]"

text \<open>
  For claim C5: the states at the end of \<open>k\<close> successive passes through the body of a loop
  that all reach the end of the body (\<open>None\<close> when one of them returns or raises); the
  displacement \<open>x\<^sub>n\<^sub>e\<^sub>w - x\<^sub>o\<^sub>l\<^sub>d\<close> and the gradient difference \<open>g\<^sub>n\<^sub>e\<^sub>w - g\<^sub>o\<^sub>l\<^sub>d\<close> of each of these
  iterations of \<open>bfgs_method\<close>, oldest first; and the last \<open>n\<close> entries of a list.
\<close>

fun iterations ::
  "nat \<Rightarrow> ('st \<Rightarrow> solver_error + 'st outcome) \<Rightarrow> 'st \<Rightarrow> 'st list option" where
  "iterations 0 body st = Some []"
| "iterations (Suc k) body st =
     (case body st of
        Inr (Continue st') \<Rightarrow>
          (case iterations k body st' of None \<Rightarrow> None | Some sts \<Rightarrow> Some (st' # sts))
      | _ \<Rightarrow> None)"

fun correction_pairs ::
  "('a::real_vector, 'c) bfgs_state \<Rightarrow> ('a, 'c) bfgs_state list \<Rightarrow> ('a \<times> 'a) list" where
  "correction_pairs st [] = []"
| "correction_pairs st (st' # sts) =
     (b_x st' - b_x st, b_grad_x st' - b_grad_x st) # correction_pairs st' sts"

definition last_n :: "nat \<Rightarrow> 'x list \<Rightarrow> 'x list" where
  "last_n n xs = drop (length xs - n) xs"

text \<open>
  For claim C4, in the words of the spec: the two-loop recursion on the stored pairs
  \<open>(s\<^sub>i, y\<^sub>i)\<close> of displacements and gradient differences. The backward pass goes from the
  most recent pair to the oldest with \<open>\<rho>\<^sub>i = 1/\<langle>y\<^sub>i,s\<^sub>i\<rangle>\<close>, \<open>\<alpha>\<^sub>i = \<rho>\<^sub>i\<langle>s\<^sub>i,r\<rangle>\<close> and
  \<open>r \<leftarrow> r - \<alpha>\<^sub>i\<cdot>y\<^sub>i\<close>, and keeps \<open>(\<rho>\<^sub>i, \<alpha>\<^sub>i)\<close>; then the estimate of the inverse Hessian is
  applied to \<open>r\<close> when there is one; the forward pass goes from the oldest pair to the most
  recent with \<open>\<beta> = \<rho>\<^sub>i\<langle>y\<^sub>i,r\<rangle>\<close> and \<open>r \<leftarrow> r + (\<alpha>\<^sub>i - \<beta>)\<cdot>s\<^sub>i\<close>.
\<close>

fun backward_pass ::
  "('a::real_vector \<Rightarrow> 'a \<Rightarrow> real) \<Rightarrow> ('a \<times> 'a) list \<Rightarrow> 'a \<Rightarrow> 'a \<times> (real \<times> real) list" where
  "backward_pass ip [] r = (r, [])"
| "backward_pass ip ((s, y) # older) r =
     (let \<rho> = 1 / ip y s;
          \<alpha> = \<rho> * ip s r;
          (r', coefficients) = backward_pass ip older (r - \<alpha> *\<^sub>R y)
      in (r', (\<rho>, \<alpha>) # coefficients))"

fun forward_pass ::
  "('a::real_vector \<Rightarrow> 'a \<Rightarrow> real) \<Rightarrow> (('a \<times> 'a) \<times> (real \<times> real)) list \<Rightarrow> 'a \<Rightarrow> 'a" where
  "forward_pass ip [] r = r"
| "forward_pass ip (((s, y), (\<rho>, \<alpha>)) # newer) r =
     (let \<beta> = \<rho> * ip y r
      in forward_pass ip newer (r + (\<alpha> - \<beta>) *\<^sub>R s))"

definition two_loop_recursion ::
  "('a::real_vector \<Rightarrow> 'a \<Rightarrow> real) \<Rightarrow> ('a \<times> 'a) list \<Rightarrow> ('a \<Rightarrow> 'a) option \<Rightarrow> 'a \<Rightarrow> 'a" where
  "two_loop_recursion ip pairs hessinv_estimate g =
     (let most_recent_first = rev pairs;
          (r, coefficients) = backward_pass ip most_recent_first g;
          r' = (case hessinv_estimate of None \<Rightarrow> r | Some H \<Rightarrow> H r)
      in forward_pass ip (rev (zip most_recent_first coefficients)) r')"

text \<open>What lines 278 to 281 keep of a list, as one function of \<open>maxcor\<close>.\<close>

definition retained :: "int option \<Rightarrow> 'x list \<Rightarrow> 'x list" where
  "retained maxcor xs = (case maxcor of None \<Rightarrow> xs | Some m \<Rightarrow> slice_from xs (- m))"

section \<open>Theorems\<close>

subsection \<open>The constructor of \<open>ProductSpaceOperator\<close>\<close>

lemma col_doms_append: "col_doms (xs @ ys) c = col_doms xs c \<union> col_doms ys c"
  by (auto simp: col_doms_def)

lemma row_rans_append: "row_rans (xs @ ys) c = row_rans xs c \<union> row_rans ys c"
  by (auto simp: row_rans_def)

lemma col_doms_single: "col_doms [(i, j, Op op)] c = (if c = j then {op_domain op} else {})"
  by (auto simp: col_doms_def)

lemma row_rans_single: "row_rans [(i, j, Op op)] r = (if r = i then {op_range op} else {})"
  by (auto simp: row_rans_def)

lemma col_doms_hd: "op_domain op \<in> col_doms ((i, c, Op op) # rest) c"
  by (auto simp: col_doms_def)

lemma row_rans_hd: "op_range op \<in> row_rans ((r, j, Op op) # rest) r"
  by (auto simp: row_rans_def)

lemma infer_spaces_seen:
  assumes "seen done ds rs"
    and "\<forall>(i, j, e) \<in> set rest. i < length rs \<and> j < length ds \<and> isinstance_Operator e"
  shows "case infer_spaces rest (Some ds) (Some rs) of
           Inl err \<Rightarrow> conflict_in (done @ rest) err
         | Inr (domains, ranges) \<Rightarrow>
             (\<exists>ds' rs'. domains = Some ds' \<and> ranges = Some rs' \<and> length ds' = length ds \<and>
                length rs' = length rs \<and> seen (done @ rest) ds' rs')"
  using assms
proof (induction rest arbitrary: "done" ds rs)
  case Nil
  then show ?case by simp
next
  case (Cons t rest)
  obtain row col e where t: "t = (row, col, e)" by (cases t)
  from Cons.prems(2) t obtain op where e: "e = Op op" and row: "row < length rs" and col: "col < length ds"
    by (cases e) auto
  have rest: "\<forall>(i, j, e) \<in> set rest. i < length rs \<and> j < length ds \<and> isinstance_Operator e"
    using Cons.prems(2) by simp
  define ds' where "ds' = (case ds ! col of None \<Rightarrow> ds[col := Some (op_domain op)] | Some d \<Rightarrow> ds)"
  define rs' where "rs' = (case rs ! row of None \<Rightarrow> rs[row := Some (op_range op)] | Some r \<Rightarrow> rs)"
  have len: "length ds' = length ds" "length rs' = length rs"
    by (simp_all add: ds'_def rs'_def split: option.splits)
  have cd: "\<forall>c<length ds. col_doms done c = set_option (ds ! c)"
    and rr: "\<forall>r<length rs. row_rans done r = set_option (rs ! r)"
    using Cons.prems(1) by (simp_all add: seen_def)
  show ?case
  proof (cases "\<exists>d. ds ! col = Some d \<and> d \<noteq> op_domain op")
    case True
    then obtain d where d: "ds ! col = Some d" "d \<noteq> op_domain op" by blast
    have "d \<in> col_doms done col" using cd col d by simp
    then show ?thesis using d col t e
      by (simp add: col_doms_append col_doms_hd)
  next
    case domain_ok: False
    have cd': "\<forall>c<length ds'. col_doms (done @ [t]) c = set_option (ds' ! c)"
      using cd col domain_ok
      by (auto simp: col_doms_append col_doms_single t e ds'_def nth_list_update split: option.splits)
    show ?thesis
    proof (cases "\<exists>r. rs ! row = Some r \<and> r \<noteq> op_range op")
      case True
      then obtain r where r: "rs ! row = Some r" "r \<noteq> op_range op" by blast
      have "r \<in> row_rans done row" using rr row r by simp
      then show ?thesis using r row col t e domain_ok
        by (auto simp: row_rans_append row_rans_hd split: option.splits)
    next
      case range_ok: False
      have rr': "\<forall>r<length rs'. row_rans (done @ [t]) r = set_option (rs' ! r)"
        using rr row range_ok
        by (auto simp: row_rans_append row_rans_single t e rs'_def nth_list_update split: option.splits)
      have seen': "seen (done @ [t]) ds' rs'" using cd' rr' by (simp add: seen_def)
      have rest': "\<forall>(i, j, e) \<in> set rest. i < length rs' \<and> j < length ds' \<and> isinstance_Operator e"
        using rest len by simp
      have IH: "case infer_spaces rest (Some ds') (Some rs') of
           Inl err \<Rightarrow> conflict_in (done @ t # rest) err
         | Inr (domains, ranges) \<Rightarrow>
             (\<exists>ds'' rs''. domains = Some ds'' \<and> ranges = Some rs'' \<and> length ds'' = length ds \<and>
                length rs'' = length rs \<and> seen (done @ t # rest) ds'' rs'')"
        using Cons.IH [OF seen' rest'] unfolding len append_assoc append.simps .
      have "infer_spaces (t # rest) (Some ds) (Some rs) = infer_spaces rest (Some ds') (Some rs')"
        using domain_ok range_ok row col
        by (auto simp: t e ds'_def rs'_def split: option.splits)
      then show ?thesis using IH by simp
    qed
  qed
qed


lemma coo_cell:
  "(i, j, e) \<in> set (case v of Absent \<Rightarrow> [] | e' \<Rightarrow> [(a, b, e')]) \<longleftrightarrow>
     i = a \<and> j = b \<and> e = v \<and> v \<noteq> Absent"
  by (cases v) auto

lemma coo_triples_iff:
  "(i, j, e) \<in> set (triples (coo_matrix A)) \<longleftrightarrow>
     i < nrows A \<and> j < ncols A \<and> e = entry_at A i j \<and> e \<noteq> Absent"
  by (auto simp: coo_matrix_def coo_cell)

lemma col_doms_coo: "d \<in> col_doms (triples (coo_matrix A)) c \<longleftrightarrow> in_column A c d"
proof
  assume "d \<in> col_doms (triples (coo_matrix A)) c"
  then obtain i op where "(i, c, Op op) \<in> set (triples (coo_matrix A))" "d = op_domain op"
    by (auto simp: col_doms_def)
  then have "i < nrows A" "c < ncols A" "entry_at A i c = Op op" "op_domain op = d"
    by (simp_all add: coo_triples_iff)
  then show "in_column A c d"
    unfolding in_column_def by (intro conjI exI [of _ i]) simp_all
next
  assume "in_column A c d"
  then obtain i where i: "c < ncols A" "i < nrows A"
    "case entry_at A i c of Op op \<Rightarrow> op_domain op = d | _ \<Rightarrow> False"
    by (auto simp: in_column_def)
  then obtain op where "entry_at A i c = Op op" "op_domain op = d"
    by (cases "entry_at A i c") simp_all
  with i have "(i, c, Op op) \<in> set (triples (coo_matrix A))"
    by (simp add: coo_triples_iff)
  then show "d \<in> col_doms (triples (coo_matrix A)) c"
    using \<open>op_domain op = d\<close> by (auto simp: col_doms_def)
qed

lemma row_rans_coo: "s \<in> row_rans (triples (coo_matrix A)) r \<longleftrightarrow> in_row A r s"
proof
  assume "s \<in> row_rans (triples (coo_matrix A)) r"
  then obtain j op where "(r, j, Op op) \<in> set (triples (coo_matrix A))" "s = op_range op"
    by (auto simp: row_rans_def)
  then have "r < nrows A" "j < ncols A" "entry_at A r j = Op op" "op_range op = s"
    by (simp_all add: coo_triples_iff)
  then show "in_row A r s"
    unfolding in_row_def by (intro conjI exI [of _ j]) simp_all
next
  assume "in_row A r s"
  then obtain j where j: "r < nrows A" "j < ncols A"
    "case entry_at A r j of Op op \<Rightarrow> op_range op = s | _ \<Rightarrow> False"
    by (auto simp: in_row_def)
  then obtain op where "entry_at A r j = Op op" "op_range op = s"
    by (cases "entry_at A r j") simp_all
  with j have "(r, j, Op op) \<in> set (triples (coo_matrix A))"
    by (simp add: coo_triples_iff)
  then show "s \<in> row_rans (triples (coo_matrix A)) r"
    using \<open>op_range op = s\<close> by (auto simp: row_rans_def)
qed

lemma conflict_in_identifies:
  "conflict_in (triples (coo_matrix A)) err \<Longrightarrow> \<exists>msg. err = ValueError msg \<and> identifies A msg"
  by (cases "(triples (coo_matrix A), err)" rule: conflict_in.cases)
     (auto simp: col_doms_coo row_rans_coo)

text \<open>
  Claim C1. With explicit \<open>dom\<close> and \<open>ran\<close> the constructor is to succeed and use them
  verbatim. The code assigns \<open>domains\<close> and \<open>ranges\<close> only when \<open>dom\<close>, \<open>ran\<close> are \<open>None\<close>,
  and reads them for every triple: on \<open>ProductSpaceOperator([[I3]], dom=ProductSpace(Rn(3)),
  ran=ProductSpace(Rn(3)))\<close> the first triple raises \<open>UnboundLocalError\<close>.
\<close>

theorem explicit_dom_ran_raises:
  "new_ProductSpaceOperator A11 (Some (ProductSpace [Rn 3])) (Some (ProductSpace [Rn 3]))
     = Inl UnboundLocalError"
  by (simp add: new_ProductSpaceOperator_def coo_matrix_def A11_def)

text \<open>
  Claim C9. Without \<open>dom\<close> and \<open>ran\<close>, an array of operators (every entry an operator or
  the zero sentinel) that has two operators with different domains in one column, or two
  operators with different ranges in one row, is refused with a \<open>ValueError\<close>; its message
  names a column together with two different domains of operators of that column, or a
  row together with two different ranges of operators of that row.
\<close>

theorem inconsistent_spaces_value_error:
  assumes ops: "\<forall>i<nrows A. \<forall>j<ncols A. entry_at A i j \<noteq> Other"
    and conflict: "(\<exists>c d1 d2. d1 \<noteq> d2 \<and> in_column A c d1 \<and> in_column A c d2) \<or>
                   (\<exists>r s1 s2. s1 \<noteq> s2 \<and> in_row A r s1 \<and> in_row A r s2)"
  shows "\<exists>msg. new_ProductSpaceOperator A None None = Inl (ValueError msg) \<and> identifies A msg"
proof -
  let ?T = "triples (coo_matrix A)"
  let ?ds = "replicate (ncols A) None :: 'b space option list"
  let ?rs = "replicate (nrows A) None :: 'b space option list"
  have all_ops: "list_all (\<lambda>(row, col, e). isinstance_Operator e) ?T"
    unfolding list_all_iff
  proof (intro ballI)
    fix t assume t: "t \<in> set ?T"
    obtain i j e where ije: "t = (i, j, e)" by (cases t)
    with t have b: "i < nrows A" "j < ncols A" and e: "entry_at A i j = e" "e \<noteq> Absent"
      by (auto simp: coo_triples_iff)
    from ops b have "entry_at A i j \<noteq> Other" by blast
    with e have "isinstance_Operator e" by (cases e) simp_all
    then show "case t of (row, col, e) \<Rightarrow> isinstance_Operator e" by (simp add: ije)
  qed
  have bounds: "\<forall>(i, j, e) \<in> set ?T. i < length ?rs \<and> j < length ?ds \<and> isinstance_Operator e"
    using all_ops by (auto simp: list_all_iff coo_triples_iff)
  have "seen [] ?ds ?rs"
    by (simp add: seen_def col_doms_def row_rans_def)
  from infer_spaces_seen [OF this bounds]
  have post: "case infer_spaces ?T (Some ?ds) (Some ?rs) of
           Inl err \<Rightarrow> conflict_in ?T err
         | Inr (domains, ranges) \<Rightarrow>
             (\<exists>ds' rs'. domains = Some ds' \<and> ranges = Some rs' \<and> length ds' = length ?ds \<and>
                length rs' = length ?rs \<and> seen ?T ds' rs')"
    unfolding append.simps .
  show ?thesis
  proof (cases "infer_spaces ?T (Some ?ds) (Some ?rs)")
    case (Inl err)
    with post have "conflict_in ?T err" by simp
    then obtain msg where "err = ValueError msg" "identifies A msg"
      using conflict_in_identifies by blast
    then show ?thesis using Inl all_ops
      by (simp add: new_ProductSpaceOperator_def coo_matrix_def)
  next
    case (Inr st)
    with post obtain ds' rs' where st: "length ds' = ncols A" "length rs' = nrows A" "seen ?T ds' rs'"
      by (auto split: prod.splits)
    from conflict show ?thesis
    proof
      assume "\<exists>c d1 d2. d1 \<noteq> d2 \<and> in_column A c d1 \<and> in_column A c d2"
      then obtain c d1 d2 where c: "d1 \<noteq> d2" "in_column A c d1" "in_column A c d2" by blast
      then have "c < length ds'" by (simp add: in_column_def st)
      then have "col_doms ?T c = set_option (ds' ! c)" using st(3) by (simp add: seen_def)
      moreover have "d1 \<in> col_doms ?T c" "d2 \<in> col_doms ?T c" using c by (simp_all add: col_doms_coo)
      ultimately have False using c(1) by (cases "ds' ! c") auto
      then show ?thesis ..
    next
      assume "\<exists>r s1 s2. s1 \<noteq> s2 \<and> in_row A r s1 \<and> in_row A r s2"
      then obtain r s1 s2 where r: "s1 \<noteq> s2" "in_row A r s1" "in_row A r s2" by blast
      then have "r < length rs'" by (simp add: in_row_def st)
      then have "row_rans ?T r = set_option (rs' ! r)" using st(3) by (simp add: seen_def)
      moreover have "s1 \<in> row_rans ?T r" "s2 \<in> row_rans ?T r" using r by (simp_all add: row_rans_coo)
      ultimately have False using r(1) by (cases "rs' ! r") auto
      then show ?thesis ..
    qed
  qed
qed


text \<open>The column \<open>[[I3], [I2]]\<close>: both hypotheses hold and the constructor raises.\<close>

theorem inconsistent_spaces_value_error_witness:
  "entry_at A21 0 0 \<noteq> Other \<and> entry_at A21 1 0 \<noteq> Other \<and>
   in_column A21 0 (Rn 3) \<and> in_column A21 0 (Rn 2) \<and> Rn 3 \<noteq> Rn 2 \<and>
   (\<exists>msg. new_ProductSpaceOperator A21 None None = Inl (ValueError msg) \<and> identifies A21 msg)"
proof -
  have 1: "\<forall>i<nrows A21. \<forall>j<ncols A21. entry_at A21 i j \<noteq> Other"
    by (simp add: A21_def)
  have 2: "in_column A21 0 (Rn 3)"
    unfolding in_column_def by (intro conjI exI [of _ 0]) (simp_all add: A21_def IdentityOperator_def)
  have 3: "in_column A21 0 (Rn 2)"
    unfolding in_column_def by (intro conjI exI [of _ 1]) (simp_all add: A21_def IdentityOperator_def)
  have "Rn 3 \<noteq> Rn 2" by simp
  with 2 3 have 4: "(\<exists>c d1 d2. d1 \<noteq> d2 \<and> in_column A21 c d1 \<and> in_column A21 c d2) \<or>
        (\<exists>r s1 s2. s1 \<noteq> s2 \<and> in_row A21 r s1 \<and> in_row A21 r s2)"
    by blast
  from inconsistent_spaces_value_error [OF 1 4] have 5: "\<exists>msg. new_ProductSpaceOperator A21 None None = Inl (ValueError msg) \<and> identifies A21 msg" .
  have 6: "entry_at A21 0 0 \<noteq> Other" "entry_at A21 1 0 \<noteq> Other" "Rn 3 \<noteq> Rn 2"
    by (simp_all add: A21_def)
  from 2 3 5 6 show ?thesis by blast
qed

subsection \<open>Evaluation of a \<open>ProductSpaceOperator\<close>\<close>

lemma call_loop_result:
  assumes "\<forall>(i, j, e) \<in> set ts. i < length out \<and> j < length x \<and> isinstance_Operator e"
  shows "call_loop E ts x out =
           Inr (map (\<lambda>k. foldl (el_add E) (out ! k) (row_terms ts x k)) [0..<length out])"
  using assms
proof (induction ts arbitrary: out)
  case Nil
  show ?case by (simp add: map_nth)
next
  case (Cons t ts)
  obtain i j e where t: "t = (i, j, e)" by (cases t)
  from Cons.prems t obtain op where e: "e = Op op" and i: "i < length out" and j: "j < length x"
    by (cases e) auto
  let ?out = "out[i := el_add E (out ! i) (op_call op (x ! j))]"
  have "\<forall>(i, j, e) \<in> set ts. i < length ?out \<and> j < length x \<and> isinstance_Operator e"
    using Cons.prems by simp
  from Cons.IH [OF this]
  have "call_loop E ts x ?out =
          Inr (map (\<lambda>k. foldl (el_add E) (?out ! k) (row_terms ts x k)) [0..<length out])"
    by simp
  moreover have "map (\<lambda>k. foldl (el_add E) (?out ! k) (row_terms ts x k)) [0..<length out] =
     map (\<lambda>k. foldl (el_add E) (out ! k) (row_terms (t # ts) x k)) [0..<length out]"
    using i by (auto simp: t e nth_list_update)
  ultimately show ?case using i j by (simp add: t e)
qed

lemma row_terms_append: "row_terms (xs @ ys) x i = row_terms xs x i @ row_terms ys x i"
  by (induction xs x i rule: row_terms.induct) simp_all

lemma row_terms_other_row:
  "\<forall>(i', j, e) \<in> set ts. i' \<noteq> i \<Longrightarrow> row_terms ts x i = []"
  by (induction ts x i rule: row_terms.induct) auto


lemma row_terms_concat:
  "row_terms (concat xss) x i = concat (map (\<lambda>xs. row_terms xs x i) xss)"
  by (induction xss) (simp_all add: row_terms_append)

lemma row_terms_cell:
  "row_terms (case v of Absent \<Rightarrow> [] | e \<Rightarrow> [(i', j, e)]) x i =
     (if i' = i then (case v of Op op \<Rightarrow> [op_call op (x ! j)] | _ \<Rightarrow> []) else [])"
  by (cases v) simp_all

lemma concat_single_row:
  "concat (map (\<lambda>i'. if i' = i then V else []) [0..<n]) = (if i < n then V else [])"
  by (induction n) auto

lemma concat_map_Nil: "concat (map (\<lambda>j. []) xs) = []"
  by (induction xs) simp_all

lemma row_terms_coo: "row_terms (triples (coo_matrix A)) x i = block_values A x i"
proof -
  define rowlist where "rowlist = (\<lambda>i'. concat (map (\<lambda>j.
      (case entry_at A i' j of Absent \<Rightarrow> [] | e \<Rightarrow> [(i', j, e)])) [0..<ncols A]))"
  define V where "V = concat (map (\<lambda>j.
      (case entry_at A i j of Op op \<Rightarrow> [op_call op (x ! j)] | _ \<Rightarrow> [])) [0..<ncols A])"
  have T: "triples (coo_matrix A) = concat (map rowlist [0..<nrows A])"
    by (simp add: coo_matrix_def rowlist_def)
  have row: "row_terms (rowlist i') x i = (if i' = i then V else [])" for i'
    unfolding rowlist_def V_def
    by (simp add: row_terms_concat comp_def row_terms_cell concat_map_Nil)
  have "row_terms (triples (coo_matrix A)) x i = (if i < nrows A then V else [])"
    by (simp add: T row_terms_concat comp_def row concat_single_row)
  then show ?thesis by (simp add: block_values_def V_def)
qed


lemma infer_spaces_unbound:
  "ts \<noteq> [] \<Longrightarrow> domains = None \<or> ranges = None \<Longrightarrow> \<exists>err. infer_spaces ts domains ranges = Inl err"
  by (cases ts) (auto split: option.splits entry.splits sum.splits)

lemma close_domain_product:
  "close_domain dom_in domains = Inr d \<Longrightarrow> dom_in = None \<Longrightarrow>
     \<exists>ds. domains = Some ds \<and> d = ProductSpace (map the ds)"
  by (auto simp: close_domain_def split: option.splits)

lemma close_range_product:
  "close_range ran_in ranges = Inr r \<Longrightarrow> ran_in = None \<Longrightarrow>
     \<exists>rs. ranges = Some rs \<and> r = ProductSpace (map the rs)"
  by (auto simp: close_range_def split: option.splits)

lemma constructed:
  assumes "new_ProductSpaceOperator (A :: ('a, 'b) operator entry ndarray) dom_in ran_in = Inr P"
  shows "pso_ops P = coo_matrix A"
    and "isinstance_ProductSpace (pso_domain P)"
    and "isinstance_ProductSpace (pso_range P)"
    and "\<forall>(i, j, e) \<in> set (triples (coo_matrix A)).
           i < length (spaces (pso_range P)) \<and> j < length (spaces (pso_domain P)) \<and>
           isinstance_Operator e"
proof -
  let ?T = "triples (coo_matrix A)"
  let ?domains = "if dom_in = None then Some (replicate (ncols A) None) else None"
  let ?ranges = "if ran_in = None then Some (replicate (nrows A) None) else None"
  from assms have tyd: "dom_in = None \<or> isinstance_ProductSpace (the dom_in)"
    and tyr: "ran_in = None \<or> isinstance_ProductSpace (the ran_in)"
    and all_ops: "list_all (\<lambda>(row, col, e). isinstance_Operator e) ?T"
    by (auto simp: new_ProductSpaceOperator_def Let_def split: if_splits)
  from assms tyd tyr all_ops obtain domains' ranges' where
    inf: "infer_spaces ?T ?domains ?ranges = Inr (domains', ranges')"
    and cd: "close_domain dom_in domains' = Inr (pso_domain P)"
    and cr: "close_range ran_in ranges' = Inr (pso_range P)"
    and ops: "pso_ops P = coo_matrix A"
    by (auto simp: new_ProductSpaceOperator_def Let_def coo_matrix_def
             split: if_splits sum.splits prod.splits)
  show "pso_ops P = coo_matrix A" by (rule ops)
  have ops_only: "\<forall>(i, j, e) \<in> set ?T. isinstance_Operator e"
    using all_ops by (auto simp: list_all_iff)
  show "isinstance_ProductSpace (pso_domain P)"
  proof (cases dom_in)
    case None
    with close_domain_product [OF cd] show ?thesis by auto
  next
    case (Some d)
    with cd tyd show ?thesis by (simp add: close_domain_def)
  qed
  show "isinstance_ProductSpace (pso_range P)"
  proof (cases ran_in)
    case None
    with close_range_product [OF cr] show ?thesis by auto
  next
    case (Some r)
    with cr tyr show ?thesis by (simp add: close_range_def)
  qed
  show "\<forall>(i, j, e) \<in> set ?T.
           i < length (spaces (pso_range P)) \<and> j < length (spaces (pso_domain P)) \<and>
           isinstance_Operator e"
  proof (cases "dom_in = None \<and> ran_in = None")
    case True
    let ?ds = "replicate (ncols A) None :: 'b space option list"
    let ?rs = "replicate (nrows A) None :: 'b space option list"
    have bounds: "\<forall>(i, j, e) \<in> set ?T. i < length ?rs \<and> j < length ?ds \<and> isinstance_Operator e"
      using ops_only by (auto simp: coo_triples_iff)
    have "seen [] ?ds ?rs"
      by (simp add: seen_def col_doms_def row_rans_def)
    from infer_spaces_seen [OF this bounds] inf True
    obtain ds' rs' where st: "domains' = Some ds'" "ranges' = Some rs'"
      "length ds' = ncols A" "length rs' = nrows A"
      by auto
    from close_domain_product [OF cd] True st have "spaces (pso_domain P) = map the ds'" by auto
    moreover from close_range_product [OF cr] True st have "spaces (pso_range P) = map the rs'" by auto
    ultimately show ?thesis using bounds st by simp
  next
    case False
    then have "?domains = None \<or> ?ranges = None" by auto
    with infer_spaces_unbound [of ?T ?domains ?ranges] inf have "?T = []" by auto
    then show ?thesis by simp
  qed
qed


lemma constructed_well_formed:
  assumes "new_ProductSpaceOperator (A :: ('a, 'b) operator entry ndarray) dom_in ran_in = Inr P"
  shows "well_formed P"
  using constructed(4) [OF assms] constructed(1) [OF assms]
  by (simp add: well_formed_def list_all_iff)

text \<open>
  Claim C7. For every operator whose stored triples are well formed (in particular every
  one that the constructor has built) and every input \<open>x\<close> of its domain, \<open>_call\<close> returns
  the element whose component \<open>i\<close> is the sum, accumulated from the zero element of the
  \<open>i\<close>-th range component, of the values \<open>op[i,j](x[j])\<close> of the blocks present in row \<open>i\<close>;
  for a row without a block this is the zero element itself.
\<close>

theorem call_is_row_sum:
  assumes "well_formed P"
    and "in_pspace E (pso_domain P) x"
  shows "pso_call E P x =
           Inr (map (\<lambda>i. foldl (el_add E) (el_zero E (spaces (pso_range P) ! i))
                          (row_terms (triples (pso_ops P)) x i))
                  [0..<length (spaces (pso_range P))])"
proof -
  let ?out = "map (el_zero E) (spaces (pso_range P))"
  have len: "length x = length (spaces (pso_domain P))"
    using assms(2) by (auto simp: in_pspace_def dest: arg_cong [where f = length])
  have "\<forall>(i, j, e) \<in> set (triples (pso_ops P)).
          i < length ?out \<and> j < length x \<and> isinstance_Operator e"
    using assms(1) len by (simp add: well_formed_def list_all_iff)
  from call_loop_result [OF this, of E]
  show ?thesis by (simp add: pso_call_def)
qed

lemma A22_triples:
  "triples (coo_matrix A22) =
     [(0, 0, Op (IdentityOperator (Rn 3))), (0, 1, Op (IdentityOperator (Rn 3))),
      (1, 0, Op (IdentityOperator (Rn 3)))]"
  by (simp add: coo_matrix_def A22_def upt_rec)

lemma P22_constructed: "new_ProductSpaceOperator A22 None None = Inr P22"
  unfolding new_ProductSpaceOperator_def Let_def A22_triples
  by (simp add: P22_def coo_matrix_def A22_def IdentityOperator_def close_domain_def close_range_def upt_rec eval_nat_numeral)

lemma P22_well_formed: "well_formed P22"
  using constructed_well_formed [OF P22_constructed] .

lemma P21_well_formed: "well_formed P21"
  by (simp add: well_formed_def P21_def)

text \<open>
  The doctest: \<open>[[I, I], [I, 0]]\<close> maps \<open>([1,2,3], [4,5,6])\<close> to \<open>([5,7,9], [1,2,3])\<close>. The
  operator with a block in row \<open>0\<close> only maps \<open>([1,2,3])\<close> to \<open>([1,2,3], [0,0,0])\<close>.
\<close>

theorem call_is_row_sum_witness:
  "well_formed P22 \<and>
   in_pspace Rn_elements (pso_domain P22) [[1, 2, 3], [4, 5, 6]] \<and>
   pso_call Rn_elements P22 [[1, 2, 3], [4, 5, 6]] = Inr [[5, 7, 9], [1, 2, 3]] \<and>
   well_formed P21 \<and>
   in_pspace Rn_elements (pso_domain P21) [[1, 2, 3]] \<and>
   pso_call Rn_elements P21 [[1, 2, 3]] = Inr [[1, 2, 3], [0, 0, 0]]"
proof -
  have 1: "well_formed P22"
    by (rule P22_well_formed)
  have 2: "in_pspace Rn_elements (pso_domain P22) [[1, 2, 3], [4, 5, 6]]"
    by (simp add: in_pspace_def P22_def Rn_elements_def)
  have 3: "pso_call Rn_elements P22 [[1, 2, 3], [4, 5, 6]] = Inr [[5, 7, 9], [1, 2, 3]]"
    using call_is_row_sum [OF 1 2]
    by (simp add: P22_def A22_triples Rn_elements_def IdentityOperator_def upt_rec
          eval_nat_numeral)
  have 4: "well_formed P21"
    by (rule P21_well_formed)
  have 5: "in_pspace Rn_elements (pso_domain P21) [[1, 2, 3]]"
    by (simp add: in_pspace_def P21_def Rn_elements_def)
  have 6: "pso_call Rn_elements P21 [[1, 2, 3]] = Inr [[1, 2, 3], [0, 0, 0]]"
    using call_is_row_sum [OF 4 5]
    by (simp add: P21_def Rn_elements_def IdentityOperator_def upt_rec eval_nat_numeral)
  from 1 2 3 4 5 6 show ?thesis by blast
qed

lemma apply_loop_result:
  assumes "\<forall>(i, j, e) \<in> set ts. i < length out \<and> j < length x \<and> isinstance_Operator e"
    and "length ev = length out"
  shows "apply_loop E ts x out ev =
           Inr (map (\<lambda>k. case row_terms ts x k of
                            [] \<Rightarrow> out ! k
                          | v # vs \<Rightarrow> if ev ! k then foldl (el_add E) (out ! k) (v # vs)
                                      else foldl (el_add E) v vs) [0..<length out],
                map (\<lambda>k. ev ! k \<or> row_terms ts x k \<noteq> []) [0..<length out])"
  using assms
proof (induction ts arbitrary: out ev)
  case Nil
  then show ?case using map_nth [of ev] map_nth [of out] by simp
next
  case (Cons t ts)
  obtain i j e where t: "t = (i, j, e)" by (cases t)
  from Cons.prems t obtain op where e: "e = Op op" and i: "i < length out" and j: "j < length x"
    by (cases e) auto
  define v where "v = op_call op (x ! j)"
  define out1 where "out1 = (if ev ! i then out[i := el_add E (out ! i) v] else out[i := v])"
  define ev1 where "ev1 = ev[i := True]"
  have len: "length out1 = length out" "length ev1 = length out1"
    using Cons.prems(2) by (simp_all add: out1_def ev1_def)
  have step: "apply_loop E (t # ts) x out ev = apply_loop E ts x out1 ev1"
    using i j Cons.prems(2) by (simp add: t e out1_def ev1_def v_def)
  have "\<forall>(i, j, e) \<in> set ts. i < length out1 \<and> j < length x \<and> isinstance_Operator e"
    using Cons.prems(1) len by simp
  from Cons.IH [OF this len(2)]
  have IH: "apply_loop E ts x out1 ev1 =
           Inr (map (\<lambda>k. case row_terms ts x k of
                            [] \<Rightarrow> out1 ! k
                          | w # ws \<Rightarrow> if ev1 ! k then foldl (el_add E) (out1 ! k) (w # ws)
                                      else foldl (el_add E) w ws) [0..<length out],
                map (\<lambda>k. ev1 ! k \<or> row_terms ts x k \<noteq> []) [0..<length out])"
    by (simp add: len)
  have rt: "row_terms (t # ts) x k = (if i = k then v # row_terms ts x k else row_terms ts x k)" for k
    by (simp add: t e v_def)
  have a: "(case row_terms ts x k of
              [] \<Rightarrow> out1 ! k
            | w # ws \<Rightarrow> if ev1 ! k then foldl (el_add E) (out1 ! k) (w # ws)
                        else foldl (el_add E) w ws) =
           (case row_terms (t # ts) x k of
              [] \<Rightarrow> out ! k
            | v # vs \<Rightarrow> if ev ! k then foldl (el_add E) (out ! k) (v # vs)
                        else foldl (el_add E) v vs)" if "k < length out" for k
    using that i Cons.prems(2)
    by (cases "row_terms ts x k") (simp_all add: rt out1_def ev1_def nth_list_update)
  have b: "(ev1 ! k \<or> row_terms ts x k \<noteq> []) = (ev ! k \<or> row_terms (t # ts) x k \<noteq> [])"
    if "k < length out" for k
    using that i Cons.prems(2) by (simp add: rt ev1_def nth_list_update)
  show ?case unfolding step IH using a b by simp
qed

lemma zero_fill_result:
  assumes "distinct (map fst ps)" and "\<forall>(i, b) \<in> set ps. i < length out"
  shows "zero_fill E ps out =
           Inr (map (\<lambda>k. if (k, False) \<in> set ps then el_zero E (el_space E (out ! k)) else out ! k)
                  [0..<length out])"
  using assms
proof (induction ps arbitrary: out)
  case Nil
  then show ?case by (simp add: map_nth)
next
  case (Cons p ps)
  obtain i b where p: "p = (i, b)" by (cases p)
  from Cons.prems p have i: "i < length out" and fresh: "\<And>c. (i, c) \<notin> set ps"
    and d: "distinct (map fst ps)"
    by (auto simp: image_iff)
  show ?case
  proof (cases b)
    case True
    from Cons.IH [OF d, of out] Cons.prems(2) show ?thesis
      by (simp add: p True)
  next
    case False
    let ?out = "out[i := el_zero E (el_space E (out ! i))]"
    have "\<forall>(i, b) \<in> set ps. i < length ?out" using Cons.prems(2) by simp
    from Cons.IH [OF d this] i fresh show ?thesis
      by (auto simp: p False nth_list_update)
  qed
qed

lemma zero_fill_enumerate:
  assumes "length ev = length out"
  shows "zero_fill E (zip [0..<length ev] ev) out =
           Inr (map (\<lambda>k. if ev ! k then out ! k else el_zero E (el_space E (out ! k)))
                  [0..<length out])"
proof -
  have "distinct (map fst (zip [0..<length ev] ev))" by simp
  moreover have "\<forall>(i, b) \<in> set (zip [0..<length ev] ev). i < length out"
    using assms by (auto simp: set_zip)
  ultimately have "zero_fill E (zip [0..<length ev] ev) out =
           Inr (map (\<lambda>k. if (k, False) \<in> set (zip [0..<length ev] ev)
                          then el_zero E (el_space E (out ! k)) else out ! k) [0..<length out])"
    by (rule zero_fill_result)
  moreover have "(k, False) \<in> set (zip [0..<length ev] ev) \<longleftrightarrow> \<not> ev ! k" if "k < length out" for k
    using that assms by (auto simp: set_zip intro!: exI [of _ k])
  ultimately show ?thesis by simp
qed


text \<open>
  Claim C3. For every operator whose stored triples are well formed (in particular every
  one that the constructor has built), every input \<open>x\<close> of its domain and every \<open>out\<close> of
  its range, \<open>_apply\<close> leaves in \<open>out[i]\<close>: for a row with blocks, the value of its first
  block (written, not added) with the values of its later blocks added in the order of
  the triples; for a row without a block, the zero element of that range component. The
  result does not mention the incoming \<open>out\<close>.
\<close>

theorem apply_writes_first_then_adds:
  assumes "well_formed P"
    and "in_pspace E (pso_domain P) x"
    and "in_pspace E (pso_range P) out"
  shows "pso_apply E P x out =
           Inr (map (\<lambda>i. case row_terms (triples (pso_ops P)) x i of
                            [] \<Rightarrow> el_zero E (spaces (pso_range P) ! i)
                          | v # vs \<Rightarrow> foldl (el_add E) v vs)
                  [0..<length (spaces (pso_range P))])"
proof -
  let ?T = "triples (pso_ops P)"
  let ?n = "length (spaces (pso_range P))"
  let ?ev = "replicate ?n False"
  have sp: "map (el_space E) out = spaces (pso_range P)"
    using assms(3) by (simp add: in_pspace_def)
  then have len_out: "length out = ?n"
    by (auto dest: arg_cong [where f = length])
  have len_x: "length x = length (spaces (pso_domain P))"
    using assms(2) by (auto simp: in_pspace_def dest: arg_cong [where f = length])
  have space_out: "el_space E (out ! k) = spaces (pso_range P) ! k" if "k < ?n" for k
    using that sp len_out by (metis nth_map)
  have bounds: "\<forall>(i, j, e) \<in> set ?T. i < length out \<and> j < length x \<and> isinstance_Operator e"
    using assms(1) len_x len_out by (simp add: well_formed_def list_all_iff)
  define out1 where "out1 = map (\<lambda>k. case row_terms ?T x k of
                            [] \<Rightarrow> out ! k
                          | v # vs \<Rightarrow> if ?ev ! k then foldl (el_add E) (out ! k) (v # vs)
                                      else foldl (el_add E) v vs) [0..<length out]"
  define ev1 where "ev1 = map (\<lambda>k. ?ev ! k \<or> row_terms ?T x k \<noteq> []) [0..<length out]"
  have loop: "apply_loop E ?T x out ?ev = Inr (out1, ev1)"
    unfolding out1_def ev1_def
    by (rule apply_loop_result [OF bounds]) (simp add: len_out)
  have len1: "length ev1 = length out1" "length out1 = ?n"
    by (simp_all add: out1_def ev1_def len_out)
  have "pso_apply E P x out = zero_fill E (zip [0..<length ev1] ev1) out1"
    by (simp add: pso_apply_def loop)
  also have "\<dots> = Inr (map (\<lambda>k. if ev1 ! k then out1 ! k
                                 else el_zero E (el_space E (out1 ! k))) [0..<length out1])"
    by (rule zero_fill_enumerate [OF len1(1)])
  also have "map (\<lambda>k. if ev1 ! k then out1 ! k
                         else el_zero E (el_space E (out1 ! k))) [0..<length out1] =
             map (\<lambda>i. case row_terms ?T x i of
                            [] \<Rightarrow> el_zero E (spaces (pso_range P) ! i)
                          | v # vs \<Rightarrow> foldl (el_add E) v vs) [0..<?n]"
  proof -
    have "(if ev1 ! k then out1 ! k else el_zero E (el_space E (out1 ! k))) =
          (case row_terms ?T x k of
             [] \<Rightarrow> el_zero E (spaces (pso_range P) ! k)
           | v # vs \<Rightarrow> foldl (el_add E) v vs)" if "k < ?n" for k
      using that space_out [OF that]
      by (cases "row_terms ?T x k") (simp_all add: out1_def ev1_def len_out)
    then show ?thesis by (simp add: len1)
  qed
  finally show ?thesis .
qed

lemma P00_constructed:
  "new_ProductSpaceOperator A00 (Some (ProductSpace [Rn 3])) (Some (ProductSpace [Rn 3])) = Inr P00"
  by (simp add: new_ProductSpaceOperator_def P00_def coo_matrix_def A00_def
        close_domain_def close_range_def)

lemma P00_well_formed: "well_formed P00"
  using constructed_well_formed [OF P00_constructed] .

text \<open>
  On an \<open>out\<close> filled with other values: the doctest array, the operator with a block in
  row \<open>0\<close> only, whose row \<open>1\<close> is zeroed after row \<open>0\<close> has been written, and the operator
  without blocks, whose only row is zeroed.
\<close>

theorem apply_writes_first_then_adds_witness:
  "well_formed P22 \<and>
   in_pspace Rn_elements (pso_domain P22) [[1, 2, 3], [4, 5, 6]] \<and>
   in_pspace Rn_elements (pso_range P22) [[9, 9, 9], [7, 7, 7]] \<and>
   pso_apply Rn_elements P22 [[1, 2, 3], [4, 5, 6]] [[9, 9, 9], [7, 7, 7]]
     = Inr [[5, 7, 9], [1, 2, 3]] \<and>
   well_formed P21 \<and>
   in_pspace Rn_elements (pso_domain P21) [[1, 2, 3]] \<and>
   in_pspace Rn_elements (pso_range P21) [[9, 9, 9], [7, 7, 7]] \<and>
   pso_apply Rn_elements P21 [[1, 2, 3]] [[9, 9, 9], [7, 7, 7]]
     = Inr [[1, 2, 3], [0, 0, 0]] \<and>
   well_formed P00 \<and>
   in_pspace Rn_elements (pso_domain P00) [[1, 2, 3]] \<and>
   in_pspace Rn_elements (pso_range P00) [[9, 9, 9]] \<and>
   pso_apply Rn_elements P00 [[1, 2, 3]] [[9, 9, 9]] = Inr [[0, 0, 0]]"
proof -
  have 1: "well_formed P22"
    by (rule P22_well_formed)
  have 2: "in_pspace Rn_elements (pso_domain P22) [[1, 2, 3], [4, 5, 6]]"
    by (simp add: in_pspace_def P22_def Rn_elements_def)
  have 3: "in_pspace Rn_elements (pso_range P22) [[9, 9, 9], [7, 7, 7]]"
    by (simp add: in_pspace_def P22_def Rn_elements_def)
  have 4: "pso_apply Rn_elements P22 [[1, 2, 3], [4, 5, 6]] [[9, 9, 9], [7, 7, 7]]
             = Inr [[5, 7, 9], [1, 2, 3]]"
    using apply_writes_first_then_adds [OF 1 2 3]
    by (simp add: P22_def A22_triples Rn_elements_def IdentityOperator_def
          upt_rec eval_nat_numeral)
  have 5: "well_formed P21"
    by (rule P21_well_formed)
  have 6: "in_pspace Rn_elements (pso_domain P21) [[1, 2, 3]]"
    by (simp add: in_pspace_def P21_def Rn_elements_def)
  have 7: "in_pspace Rn_elements (pso_range P21) [[9, 9, 9], [7, 7, 7]]"
    by (simp add: in_pspace_def P21_def Rn_elements_def)
  have 8: "pso_apply Rn_elements P21 [[1, 2, 3]] [[9, 9, 9], [7, 7, 7]]
             = Inr [[1, 2, 3], [0, 0, 0]]"
    using apply_writes_first_then_adds [OF 5 6 7]
    by (simp add: P21_def Rn_elements_def IdentityOperator_def upt_rec eval_nat_numeral)
  have 9: "well_formed P00"
    by (rule P00_well_formed)
  have 10: "in_pspace Rn_elements (pso_domain P00) [[1, 2, 3]]"
    by (simp add: in_pspace_def P00_def Rn_elements_def)
  have 11: "in_pspace Rn_elements (pso_range P00) [[9, 9, 9]]"
    by (simp add: in_pspace_def P00_def Rn_elements_def)
  have 12: "pso_apply Rn_elements P00 [[1, 2, 3]] [[9, 9, 9]] = Inr [[0, 0, 0]]"
    using apply_writes_first_then_adds [OF 9 10 11]
    by (simp add: P00_def coo_matrix_def A00_def Rn_elements_def eval_nat_numeral)
  from 1 2 3 4 5 6 7 8 9 10 11 12 show ?thesis by blast
qed

subsection \<open>Projection and its adjoint\<close>

text \<open>
  Claim C8. Whenever \<open>ComponentProjection(S, I)\<close> can be built, its \<open>adjoint\<close> can be
  built, the \<open>adjoint\<close> of that one can be built, and it has the same domain, the same
  range and the same action (\<open>_call\<close> and \<open>_apply\<close>) as the projection, whatever the
  indexing of spaces and elements does.
\<close>

theorem adjoint_adjoint_is_projection:
  assumes "new_ComponentProjection getitem S I = Inr P"
  shows "\<exists>A P'. cp_adjoint getitem P = Inr A \<and> cpa_adjoint getitem A = Inr P' \<and>
           cp_domain P' = cp_domain P \<and> cp_range P' = cp_range P \<and>
           (\<forall>x. cp_call elem_getitem P' x = cp_call elem_getitem P x) \<and>
           (\<forall>x out. cp_apply elem_getitem P' x out = cp_apply elem_getitem P x out)"
proof -
  from assms obtain sub where sub: "getitem S I = Inr sub"
    and P: "P = \<lparr> cp_index = I, cp_domain = S, cp_range = sub, cp_is_linear = True \<rparr>"
    by (auto simp: new_ComponentProjection_def split: sum.splits)
  let ?A = "\<lparr> cpa_index = I, cpa_domain = sub, cpa_range = S, cpa_is_linear = True \<rparr>"
  have "cp_adjoint getitem P = Inr ?A"
    by (simp add: cp_adjoint_def new_ComponentProjectionAdjoint_def P sub)
  moreover have "cpa_adjoint getitem ?A = Inr P"
    by (simp add: cpa_adjoint_def new_ComponentProjection_def P sub)
  ultimately show ?thesis by blast
qed

text \<open>The doctest \<open>ComponentProjection(X, [0, 2])\<close> on \<open>[[1], [2, 3], [4, 5, 6]]\<close>.\<close>

theorem adjoint_adjoint_is_projection_witness:
  "new_ComponentProjection pspace_getitem X123 (ListIndex [0, 2])
     = Inr \<lparr> cp_index = ListIndex [0, 2], cp_domain = X123,
             cp_range = ProductSpace [Rn 1, Rn 3], cp_is_linear = True \<rparr> \<and>
   (\<exists>A P'. cp_adjoint pspace_getitem
              \<lparr> cp_index = ListIndex [0, 2], cp_domain = X123,
                cp_range = ProductSpace [Rn 1, Rn 3], cp_is_linear = True \<rparr> = Inr A \<and>
            cpa_adjoint pspace_getitem A = Inr P' \<and>
            cp_domain P' = X123 \<and> cp_range P' = ProductSpace [Rn 1, Rn 3] \<and>
            cp_call element_getitem P' (Tuple [[1], [2, 3], [4, 5, 6 :: real]])
              = (Inr (Tuple [[1], [4, 5, 6]]) :: nat error + real list element))"
proof -
  let ?P = "\<lparr> cp_index = ListIndex [0, 2], cp_domain = X123,
              cp_range = ProductSpace [Rn 1, Rn 3], cp_is_linear = True \<rparr>"
  have 1: "new_ComponentProjection pspace_getitem X123 (ListIndex [0, 2]) = Inr ?P"
    by (simp add: new_ComponentProjection_def X123_def py_getitem_def)
  have 2: "cp_call element_getitem ?P (Tuple [[1], [2, 3], [4, 5, 6 :: real]])
             = (Inr (Tuple [[1], [4, 5, 6]]) :: nat error + real list element)"
    by (simp add: cp_call_def py_getitem_def)
  from adjoint_adjoint_is_projection [OF 1, of element_getitem]
  obtain A P' where a: "cp_adjoint pspace_getitem ?P = Inr A"
    and b: "cpa_adjoint pspace_getitem A = Inr P'"
    and c: "cp_domain P' = cp_domain ?P" "cp_range P' = cp_range ?P"
    and d: "\<forall>x. cp_call element_getitem P' x
                = (cp_call element_getitem ?P x :: nat error + real list element)"
    by blast
  from d 2 have e: "cp_call element_getitem P' (Tuple [[1], [2, 3], [4, 5, 6 :: real]])
             = (Inr (Tuple [[1], [4, 5, 6]]) :: nat error + real list element)"
    by simp
  from c have f: "cp_domain P' = X123" "cp_range P' = ProductSpace [Rn 1, Rn 3]"
    by simp_all
  from a b e f have "\<exists>A P'. cp_adjoint pspace_getitem ?P = Inr A \<and>
            cpa_adjoint pspace_getitem A = Inr P' \<and>
            cp_domain P' = X123 \<and> cp_range P' = ProductSpace [Rn 1, Rn 3] \<and>
            cp_call element_getitem P' (Tuple [[1], [2, 3], [4, 5, 6 :: real]])
              = (Inr (Tuple [[1], [4, 5, 6]]) :: nat error + real list element)"
    by blast
  with 1 show ?thesis by (rule conjI)
qed

subsection \<open>The stopping test on the directional derivative\<close>


lemma ident_apply: "ident z = z"
  by (simp add: ident_def)

lemma bfgs_multiply_Nil: "bfgs_multiply ip [] [] x None = Inr x"
  by (simp add: bfgs_multiply_def)

lemma bfgs_init_dir: "bfgs_search_dir times None (bfgs_init quadratic 1 []) = Inr (- 1)"
  by (simp add: bfgs_search_dir_def bfgs_init_def bfgs_multiply_Nil quadratic_def)





subsection \<open>The early returns of the denominator guards\<close>

text \<open>
  Claim C10. When an iteration of \<open>bfgs_method\<close> passes the test on the directional
  derivative and the guard \<open>|y_inner_s| < tol\<close> trips, and when an iteration of
  \<open>broydens_method\<close> passes that test and the guard on the divisor of its variant trips,
  the body returns, and so does the solver, with a state in which \<open>x\<close> has been moved by
  the step \<open>step * search_dir\<close> while what the callback keeps is unchanged: the callback
  has not been called for this step.
\<close>

theorem guard_returns_after_update:
  "(\<forall>d. bfgs_search_dir ip H bst = Inr d \<longrightarrow>
      (let dir_deriv = ip d (b_grad_x bst);
           x_update = ls (b_x bst) d dir_deriv *\<^sub>R d;
           x = b_x bst + x_update;
           grad_x = f_gradient f x;
           y_inner_s = ip (lincomb (- 1) (b_grad_x bst) 1 grad_x) x_update
       in \<not> \<bar>dir_deriv\<bar> < tol \<longrightarrow> \<bar>y_inner_s\<bar> < tol \<longrightarrow>
            bfgs_body ip f ls tol maxcor H callback bst
              = Inr (Return (bst\<lparr> b_x := x, b_grad_x := grad_x \<rparr>)) \<and>
            for_range (Suc n) (bfgs_body ip f ls tol maxcor H callback) bst
              = Inr (bst\<lparr> b_x := x, b_grad_x := grad_x \<rparr>))) \<and>
   (let search_dir = - br_hess rst (br_grad_x rst);
        dir_deriv = ip search_dir (br_grad_x rst);
        delta_x = ls (br_x rst) search_dir dir_deriv *\<^sub>R search_dir;
        x = br_x rst + delta_x;
        grad_x = f_gradient f x;
        delta_grad = grad_x - br_grad_x rst;
        v = br_hess rst delta_grad
    in \<not> \<bar>dir_deriv\<bar> < tol \<longrightarrow>
         (impl = ''first'' \<and> \<bar>ip delta_x v\<bar> < tol \<or>
          impl = ''second'' \<and> \<bar>ip delta_grad delta_grad\<bar> < tol) \<longrightarrow>
         broyden_body ip f ls impl tol callback rst
           = Inr (Return (rst\<lparr> br_x := x, br_grad_x := grad_x \<rparr>)) \<and>
         for_range (Suc n) (broyden_body ip f ls impl tol callback) rst
           = Inr (rst\<lparr> br_x := x, br_grad_x := grad_x \<rparr>))"
proof (intro conjI allI impI)
  fix d assume "bfgs_search_dir ip H bst = Inr d"
  then show "let dir_deriv = ip d (b_grad_x bst);
           x_update = ls (b_x bst) d dir_deriv *\<^sub>R d;
           x = b_x bst + x_update;
           grad_x = f_gradient f x;
           y_inner_s = ip (lincomb (- 1) (b_grad_x bst) 1 grad_x) x_update
       in \<not> \<bar>dir_deriv\<bar> < tol \<longrightarrow> \<bar>y_inner_s\<bar> < tol \<longrightarrow>
            bfgs_body ip f ls tol maxcor H callback bst
              = Inr (Return (bst\<lparr> b_x := x, b_grad_x := grad_x \<rparr>)) \<and>
            for_range (Suc n) (bfgs_body ip f ls tol maxcor H callback) bst
              = Inr (bst\<lparr> b_x := x, b_grad_x := grad_x \<rparr>)"
    by (simp add: bfgs_body_def Let_def)
next
  show "let search_dir = - br_hess rst (br_grad_x rst);
        dir_deriv = ip search_dir (br_grad_x rst);
        delta_x = ls (br_x rst) search_dir dir_deriv *\<^sub>R search_dir;
        x = br_x rst + delta_x;
        grad_x = f_gradient f x;
        delta_grad = grad_x - br_grad_x rst;
        v = br_hess rst delta_grad
    in \<not> \<bar>dir_deriv\<bar> < tol \<longrightarrow>
         (impl = ''first'' \<and> \<bar>ip delta_x v\<bar> < tol \<or>
          impl = ''second'' \<and> \<bar>ip delta_grad delta_grad\<bar> < tol) \<longrightarrow>
         broyden_body ip f ls impl tol callback rst
           = Inr (Return (rst\<lparr> br_x := x, br_grad_x := grad_x \<rparr>)) \<and>
         for_range (Suc n) (broyden_body ip f ls impl tol callback) rst
           = Inr (rst\<lparr> br_x := x, br_grad_x := grad_x \<rparr>)"
    by (auto simp: broyden_body_def update_hessian_def Let_def)
qed


text \<open>
  On the test problem from \<open>x = 1\<close> with step length \<open>1/2\<close> and \<open>tol = 1/2\<close>: the directional
  derivative is \<open>-1\<close>, the denominators are \<open>1/4\<close>; the solvers return with \<open>x = 1/2\<close> and an
  empty list of iterates seen by the callback.
\<close>

theorem guard_returns_after_update_witness:
  "bfgs_search_dir times None (bfgs_init quadratic 1 ([] :: real list)) = Inr (- 1) \<and>
   bfgs_body times quadratic (as_callable (Fixed (1 / 2))) (1 / 2) None None
       (Some append_iterate) (bfgs_init quadratic 1 [])
     = Inr (Return \<lparr> b_x = 1 / 2, b_grad_x = 1 / 2, b_ss = [], b_ys = [], b_kept = [] \<rparr>) \<and>
   bfgs_method times quadratic 1 (Fixed (1 / 2)) 5 (1 / 2) None None (Some append_iterate) []
     = Inr \<lparr> b_x = 1 / 2, b_grad_x = 1 / 2, b_ss = [], b_ys = [], b_kept = [] \<rparr> \<and>
   broyden_body times quadratic (as_callable (Fixed (1 / 2))) ''first'' (1 / 2)
       (Some append_iterate) \<lparr> br_x = 1, br_grad_x = 1, br_hess = ident, br_kept = [] \<rparr>
     = Inr (Return \<lparr> br_x = 1 / 2, br_grad_x = 1 / 2, br_hess = ident, br_kept = [] \<rparr>) \<and>
   broydens_method times quadratic 1 (Fixed (1 / 2)) ''second'' 5 (1 / 2)
       (Some append_iterate) []
     = Inr \<lparr> br_x = 1 / 2, br_grad_x = 1 / 2, br_hess = ident, br_kept = [] \<rparr>"
proof -
  let ?bst = "bfgs_init quadratic 1 [] :: (real, real list) bfgs_state"
  let ?rst = "\<lparr> br_x = 1, br_grad_x = 1, br_hess = ident, br_kept = [] \<rparr>
                :: (real, real list) broyden_state"
  let ?ls = "as_callable (Fixed (1 / 2)) :: real \<Rightarrow> real \<Rightarrow> real \<Rightarrow> real"
  have sd: "bfgs_search_dir times None ?bst = Inr (- 1)"
    by (rule bfgs_init_dir)
  note b = guard_returns_after_update [where ip = times and H = None and bst = ?bst
      and ls = ?ls and f = quadratic and tol = "1 / 2" and maxcor = None
      and callback = "Some append_iterate" and n = 4,
      THEN conjunct1, rule_format, OF sd]
  have 1: "bfgs_body times quadratic ?ls (1 / 2) None None (Some append_iterate) ?bst
     = Inr (Return \<lparr> b_x = 1 / 2, b_grad_x = 1 / 2, b_ss = [], b_ys = [], b_kept = [] \<rparr>)"
    and 2: "for_range (Suc 4) (bfgs_body times quadratic ?ls (1 / 2) None None
               (Some append_iterate)) ?bst
     = Inr \<lparr> b_x = 1 / 2, b_grad_x = 1 / 2, b_ss = [], b_ys = [], b_kept = [] \<rparr>"
    using b by (simp_all add: Let_def bfgs_init_def quadratic_def times_def lincomb_def)
  have 3: "bfgs_method times quadratic 1 (Fixed (1 / 2)) 5 (1 / 2) None None
             (Some append_iterate) []
     = Inr \<lparr> b_x = 1 / 2, b_grad_x = 1 / 2, b_ss = [], b_ys = [], b_kept = [] \<rparr>"
    unfolding bfgs_method_def using 2 by (simp add: quadratic_def eval_nat_numeral)
  note r1 = guard_returns_after_update [where ip = times and rst = ?rst
      and ls = ?ls and f = quadratic and tol = "1 / 2" and impl = "''first''"
      and callback = "Some append_iterate" and n = 4,
      THEN conjunct2]
  note r2 = guard_returns_after_update [where ip = times and rst = ?rst
      and ls = ?ls and f = quadratic and tol = "1 / 2" and impl = "''second''"
      and callback = "Some append_iterate" and n = 4,
      THEN conjunct2]
  have 4: "broyden_body times quadratic ?ls ''first'' (1 / 2) (Some append_iterate) ?rst
     = Inr (Return \<lparr> br_x = 1 / 2, br_grad_x = 1 / 2, br_hess = ident, br_kept = [] \<rparr>)"
    using r1 by (simp add: Let_def quadratic_def times_def ident_apply)
  have 5: "for_range (Suc 4) (broyden_body times quadratic ?ls ''second'' (1 / 2)
              (Some append_iterate)) ?rst
     = Inr \<lparr> br_x = 1 / 2, br_grad_x = 1 / 2, br_hess = ident, br_kept = [] \<rparr>"
    using r2 by (simp add: Let_def quadratic_def times_def ident_apply)
  have 6: "broydens_method times quadratic 1 (Fixed (1 / 2)) ''second'' 5 (1 / 2)
       (Some append_iterate) []
     = Inr \<lparr> br_x = 1 / 2, br_grad_x = 1 / 2, br_hess = ident, br_kept = [] \<rparr>"
    unfolding broydens_method_def using 5 by (simp add: quadratic_def eval_nat_numeral)
  from sd 1 3 4 6 show ?thesis by blast
qed

subsection \<open>Broyden's method with an unknown \<open>impl\<close>\<close>

lemma broyden_body_other:
  assumes "impl \<noteq> ''first''" "impl \<noteq> ''second''"
  shows "broyden_body ip f ls impl tol callback st =
           (let search_dir = - br_hess st (br_grad_x st);
                dir_deriv = ip search_dir (br_grad_x st)
            in if \<bar>dir_deriv\<bar> < tol then Inr (Return st)
               else
                 (let x = br_x st + ls (br_x st) search_dir dir_deriv *\<^sub>R search_dir
                  in Inr (Continue
                       \<lparr> br_x = x, br_grad_x = f_gradient f x, br_hess = br_hess st,
                         br_kept = call_callback callback x (br_kept st) \<rparr>)))"
  using assms by (simp add: broyden_body_def update_hessian_def Let_def)

lemma broyden_loop_other:
  assumes "impl \<noteq> ''first''" "impl \<noteq> ''second''"
  shows "\<exists>st'. for_range n (broyden_body ip f ls impl tol callback) st = Inr st' \<and>
               br_hess st' = br_hess st"
proof (induction n arbitrary: st)
  case 0
  show ?case by simp
next
  case (Suc n)
  let ?d = "- br_hess st (br_grad_x st)"
  show ?case
  proof (cases "\<bar>ip ?d (br_grad_x st)\<bar> < tol")
    case True
    then have "broyden_body ip f ls impl tol callback st = Inr (Return st)"
      by (simp add: broyden_body_other [OF assms] Let_def)
    then show ?thesis by simp
  next
    case False
    let ?x = "br_x st + ls (br_x st) ?d (ip ?d (br_grad_x st)) *\<^sub>R ?d"
    let ?st = "\<lparr> br_x = ?x, br_grad_x = f_gradient f ?x, br_hess = br_hess st,
                 br_kept = call_callback callback ?x (br_kept st) \<rparr>"
    from Suc.IH [of ?st] obtain st' where
      "for_range n (broyden_body ip f ls impl tol callback) ?st = Inr st'"
      "br_hess st' = br_hess st"
      by auto
    moreover have "broyden_body ip f ls impl tol callback st = Inr (Continue ?st)"
      using False by (simp add: broyden_body_other [OF assms] Let_def)
    ultimately show ?thesis by simp
  qed
qed

text \<open>
  Claim C6. For every \<open>impl\<close> other than \<open>'first'\<close> and \<open>'second'\<close>, an iteration of
  \<open>broydens_method\<close> that passes the test on the directional derivative reaches the end of
  the body with \<open>x\<close> moved by the step, the callback called with the new \<open>x\<close> and \<open>hess\<close>
  as it was; and the solver, started in the domain, returns with \<open>hess\<close> still the identity
  it started from.
\<close>

theorem unknown_impl_never_updates_hessian:
  assumes "impl \<noteq> ''first''" and "impl \<noteq> ''second''"
  shows "broyden_body ip f ls impl tol callback st =
           (let search_dir = - br_hess st (br_grad_x st);
                dir_deriv = ip search_dir (br_grad_x st)
            in if \<bar>dir_deriv\<bar> < tol then Inr (Return st)
               else
                 (let x = br_x st + ls (br_x st) search_dir dir_deriv *\<^sub>R search_dir
                  in Inr (Continue
                       \<lparr> br_x = x, br_grad_x = f_gradient f x, br_hess = br_hess st,
                         br_kept = call_callback callback x (br_kept st) \<rparr>))) \<and>
         (f_in_domain f x0 \<longrightarrow>
            (\<exists>st'. broydens_method ip f x0 line_search impl maxiter tol callback kept = Inr st' \<and>
                   br_hess st' = ident))"
proof (intro conjI impI)
  show "broyden_body ip f ls impl tol callback st =
           (let search_dir = - br_hess st (br_grad_x st);
                dir_deriv = ip search_dir (br_grad_x st)
            in if \<bar>dir_deriv\<bar> < tol then Inr (Return st)
               else
                 (let x = br_x st + ls (br_x st) search_dir dir_deriv *\<^sub>R search_dir
                  in Inr (Continue
                       \<lparr> br_x = x, br_grad_x = f_gradient f x, br_hess = br_hess st,
                         br_kept = call_callback callback x (br_kept st) \<rparr>)))"
    by (rule broyden_body_other [OF assms])
next
  assume "f_in_domain f x0"
  with broyden_loop_other [OF assms, of "nat maxiter" ip f "as_callable line_search" tol callback
      "\<lparr> br_x = x0, br_grad_x = f_gradient f x0, br_hess = ident, br_kept = kept \<rparr>"]
  show "\<exists>st'. broydens_method ip f x0 line_search impl maxiter tol callback kept = Inr st' \<and>
              br_hess st' = ident"
    by (simp add: broydens_method_def)
qed

text \<open>
  Two iterations with \<open>impl = 'third'\<close> on the test problem, step length \<open>1/2\<close>: the callback
  sees \<open>1/2\<close> and \<open>1/4\<close>, and \<open>hess\<close> is the identity at the end.
\<close>

theorem unknown_impl_never_updates_hessian_witness:
  "''third'' \<noteq> ''first'' \<and> ''third'' \<noteq> ''second'' \<and>
   f_in_domain quadratic 1 \<and>
   broydens_method times quadratic 1 (Fixed (1 / 2)) ''third'' 2 (1 / 100)
       (Some append_iterate) []
     = Inr \<lparr> br_x = 1 / 4, br_grad_x = 1 / 4, br_hess = ident, br_kept = [1 / 2, 1 / 4] \<rparr>"
proof -
  have 1: "''third'' \<noteq> ''first''" and 2: "''third'' \<noteq> ''second''"
    by simp_all
  have 3: "f_in_domain quadratic 1"
    by (simp add: quadratic_def)
  note body = unknown_impl_never_updates_hessian [OF 1 2, THEN conjunct1]
  have "broydens_method times quadratic 1 (Fixed (1 / 2)) ''third'' 2 (1 / 100)
       (Some append_iterate) []
     = Inr \<lparr> br_x = 1 / 4, br_grad_x = 1 / 4, br_hess = ident, br_kept = [1 / 2, 1 / 4] \<rparr>"
    by (simp add: broydens_method_def body eval_nat_numeral Let_def quadratic_def times_def
          ident_apply append_iterate_def)
  with 1 2 3 show ?thesis by blast
qed

subsection \<open>The correction pairs of \<open>bfgs_method\<close>\<close>

lemma slice_from_positive: "0 < m \<Longrightarrow> slice_from xs (- m) = last_n (nat m) xs"
proof -
  assume "0 < m"
  then have "nat (max (- m + int (length xs)) 0) = length xs - nat m"
    by (simp add: max_def) linarith
  with \<open>0 < m\<close> show ?thesis
    by (simp add: slice_from_def last_n_def Let_def)
qed

lemma last_n_append: "last_n n (last_n n xs @ ys) = last_n n (xs @ ys)"
proof (cases "n \<le> length xs")
  case True
  then show ?thesis by (simp add: last_n_def add.commute)
next
  case False
  then show ?thesis by (simp add: last_n_def add.commute)
qed

lemma lincomb_difference: "lincomb (- 1) g 1 g' = g' - g"
  by (simp add: lincomb_def)

lemma bfgs_body_Continue:
  assumes "bfgs_body ip f ls tol maxcor H callback st = Inr (Continue st')"
  shows "b_ys st' = retained maxcor (b_ys st @ [b_x st' - b_x st])"
    and "b_ss st' = retained maxcor (b_ss st @ [b_grad_x st' - b_grad_x st])"
  using assms
  by (auto simp: bfgs_body_def Let_def retained_def lincomb_difference
           split: sum.splits if_splits option.splits)


lemma retained_append:
  assumes "maxcor = None \<or> (\<exists>m. maxcor = Some m \<and> 0 < m)"
  shows "retained maxcor (retained maxcor xs @ ys) = retained maxcor (xs @ ys)"
  using assms by (auto simp: retained_def slice_from_positive last_n_append)

lemma iterations_length: "iterations k body st = Some sts \<Longrightarrow> length sts = k"
  by (induction k arbitrary: st sts) (auto split: sum.splits outcome.splits option.splits)

lemma history_general:
  assumes "iterations k (bfgs_body ip f ls tol maxcor H callback) st0 = Some sts"
    and "maxcor = None \<or> (\<exists>m. maxcor = Some m \<and> 0 < m)"
    and "j < length sts"
  shows "b_ys (sts ! j) =
           retained maxcor (b_ys st0 @ map fst (take (Suc j) (correction_pairs st0 sts))) \<and>
         b_ss (sts ! j) =
           retained maxcor (b_ss st0 @ map snd (take (Suc j) (correction_pairs st0 sts)))"
  using assms(1,3)
proof (induction k arbitrary: st0 sts j)
  case 0
  then show ?case by simp
next
  case (Suc k)
  let ?body = "bfgs_body ip f ls tol maxcor H callback"
  from Suc.prems(1) obtain st1 sts' where
    step: "?body st0 = Inr (Continue st1)"
    and rest: "iterations k ?body st1 = Some sts'"
    and sts: "sts = st1 # sts'"
    by (auto split: sum.splits outcome.splits option.splits)
  note first = bfgs_body_Continue [OF step]
  show ?case
  proof (cases j)
    case 0
    then show ?thesis by (simp add: sts first)
  next
    case (Suc j')
    with Suc.prems(2) sts have "j' < length sts'" by simp
    from Suc.IH [OF rest this] show ?thesis
      by (simp add: sts Suc first retained_append [OF assms(2)])
  qed
qed


lemma length_correction_pairs: "length (correction_pairs st sts) = length sts"
  by (induction sts arbitrary: st) simp_all

lemma length_last_n: "length (last_n n xs) \<le> n"
  by (simp add: last_n_def)

lemma bfgs_body_Return:
  assumes "bfgs_body ip f ls tol maxcor H callback st = Inr (Return st')"
  shows "b_ys st' = b_ys st" and "b_ss st' = b_ss st"
  using assms
  by (auto simp: bfgs_body_def Let_def split: sum.splits if_splits option.splits)

lemma for_range_history:
  assumes "for_range n (bfgs_body ip f ls tol maxcor H callback) st = Inr st'"
  shows "\<exists>k sts. k \<le> n \<and> iterations k (bfgs_body ip f ls tol maxcor H callback) st = Some sts \<and>
           b_ys st' = b_ys (last (st # sts)) \<and> b_ss st' = b_ss (last (st # sts))"
  using assms
proof (induction n arbitrary: st)
  case 0
  then have "iterations 0 (bfgs_body ip f ls tol maxcor H callback) st = Some [] \<and>
             b_ys st' = b_ys (last (st # [])) \<and> b_ss st' = b_ss (last (st # []))"
    by simp
  then show ?case by blast
next
  case (Suc n)
  let ?body = "bfgs_body ip f ls tol maxcor H callback"
  from Suc.prems consider
      (ret) "?body st = Inr (Return st')"
    | (cont) st1 where "?body st = Inr (Continue st1)" "for_range n ?body st1 = Inr st'"
    by (auto split: sum.splits outcome.splits)
  then show ?case
  proof cases
    case ret
    from bfgs_body_Return [OF ret]
    have "0 \<le> Suc n \<and> iterations 0 ?body st = Some [] \<and>
          b_ys st' = b_ys (last (st # [])) \<and> b_ss st' = b_ss (last (st # []))"
      by simp
    then show ?thesis by blast
  next
    case cont
    from Suc.IH [OF cont(2)] obtain k sts where
      k: "k \<le> n" and its: "iterations k ?body st1 = Some sts"
      and ys: "b_ys st' = b_ys (last (st1 # sts))" and ss: "b_ss st' = b_ss (last (st1 # sts))"
      by blast
    have "Suc k \<le> Suc n \<and> iterations (Suc k) ?body st = Some (st1 # sts) \<and>
          b_ys st' = b_ys (last (st # st1 # sts)) \<and> b_ss st' = b_ss (last (st # st1 # sts))"
      using k its ys ss cont(1) by simp
    then show ?thesis by blast
  qed
qed

lemma returned_history:
  assumes "bfgs_method ip f x line_search maxiter tol maxcor H callback kept = Inr st'"
  shows "\<exists>k sts. k \<le> nat maxiter \<and>
           iterations k (bfgs_body ip f (as_callable line_search) tol maxcor H callback)
             (bfgs_init f x kept) = Some sts \<and>
           b_ys st' = b_ys (last (bfgs_init f x kept # sts)) \<and>
           b_ss st' = b_ss (last (bfgs_init f x kept # sts))"
proof -
  from assms have "for_range (nat maxiter)
      (bfgs_body ip f (as_callable line_search) tol maxcor H callback) (bfgs_init f x kept) = Inr st'"
    by (simp add: bfgs_method_def split: if_splits)
  then show ?thesis by (rule for_range_history)
qed

lemma returned_bounded:
  assumes "bfgs_method ip f x line_search maxiter tol (Some m) H callback kept = Inr st'"
    and "0 < m"
  shows "length (b_ys st') \<le> nat m \<and> length (b_ss st') \<le> nat m"
proof -
  let ?init = "bfgs_init f x kept"
  from returned_history [OF assms(1)] obtain k sts where
    its: "iterations k (bfgs_body ip f (as_callable line_search) tol (Some m) H callback) ?init
            = Some sts"
    and ys: "b_ys st' = b_ys (last (?init # sts))"
    and ss: "b_ss st' = b_ss (last (?init # sts))"
    by blast
  show ?thesis
  proof (cases "sts = []")
    case True
    then show ?thesis by (simp add: ys ss bfgs_init_def)
  next
    case False
    let ?j = "length sts - 1"
    from False have j: "?j < length sts" by simp
    from False have l: "last (?init # sts) = sts ! ?j" by (simp add: last_conv_nth)
    from assms(2) have "Some m = None \<or> (\<exists>m'. Some m = Some m' \<and> 0 < m')" by simp
    from history_general [OF its this j]
    have "b_ys (sts ! ?j) =
            last_n (nat m) (map fst (take (Suc ?j) (correction_pairs ?init sts)))"
      and "b_ss (sts ! ?j) =
            last_n (nat m) (map snd (take (Suc ?j) (correction_pairs ?init sts)))"
      by (simp_all add: retained_def slice_from_positive [OF assms(2)] bfgs_init_def)
    then show ?thesis by (simp add: ys ss l length_last_n del: last.simps)
  qed
qed

text \<open>
  Claim C5. Take any run of \<open>bfgs_method\<close> and the state at the end of any of its
  iterations, the iteration \<open>j + 1\<close>. Its lists \<open>ys\<close> and \<open>ss\<close> are, with \<open>maxcor\<close> a positive
  integer \<open>m\<close>, the last \<open>m\<close> of the displacements and of the gradient differences of the
  iterations \<open>1\<close> to \<open>j + 1\<close> in their order (the oldest are dropped first), so they
  hold at most \<open>m\<close> entries; with \<open>maxcor\<close> unset they are all of them, \<open>j + 1\<close> entries.
  An iteration that returns leaves the lists as they were: the lists of the state that
  \<open>bfgs_method\<close> returns are those after the last iteration that went through, and with
  \<open>maxcor\<close> a positive integer \<open>m\<close> they hold at most \<open>m\<close> entries.
\<close>

theorem history_bounded_fifo:
  assumes "iterations k (bfgs_body ip f ls tol maxcor H callback) (bfgs_init f x kept) = Some sts"
    and "j < k"
  shows "(maxcor = None \<longrightarrow>
            b_ys (sts ! j) = map fst (take (Suc j) (correction_pairs (bfgs_init f x kept) sts)) \<and>
            b_ss (sts ! j) = map snd (take (Suc j) (correction_pairs (bfgs_init f x kept) sts)) \<and>
            length (b_ys (sts ! j)) = Suc j \<and> length (b_ss (sts ! j)) = Suc j) \<and>
         (\<forall>m. maxcor = Some m \<longrightarrow> 0 < m \<longrightarrow>
            b_ys (sts ! j) =
              last_n (nat m) (map fst (take (Suc j) (correction_pairs (bfgs_init f x kept) sts))) \<and>
            b_ss (sts ! j) =
              last_n (nat m) (map snd (take (Suc j) (correction_pairs (bfgs_init f x kept) sts))) \<and>
            length (b_ys (sts ! j)) \<le> nat m \<and> length (b_ss (sts ! j)) \<le> nat m) \<and>
         (\<forall>line_search maxiter st'.
            bfgs_method ip f x line_search maxiter tol maxcor H callback kept = Inr st' \<longrightarrow>
              (\<exists>n run. n \<le> nat maxiter \<and>
                 iterations n (bfgs_body ip f (as_callable line_search) tol maxcor H callback)
                   (bfgs_init f x kept) = Some run \<and>
                 b_ys st' = b_ys (last (bfgs_init f x kept # run)) \<and>
                 b_ss st' = b_ss (last (bfgs_init f x kept # run))) \<and>
              (\<forall>m. maxcor = Some m \<longrightarrow> 0 < m \<longrightarrow>
                 length (b_ys st') \<le> nat m \<and> length (b_ss st') \<le> nat m))"
proof (intro conjI impI allI)
  let ?pairs = "correction_pairs (bfgs_init f x kept) sts"
  have len: "length sts = k" using assms(1) by (rule iterations_length)
  with assms(2) have j: "j < length sts" by simp
  {
    assume none: "maxcor = None"
    then have "maxcor = None \<or> (\<exists>m. maxcor = Some m \<and> 0 < m)" by simp
    from history_general [OF assms(1) this j]
    show ys: "b_ys (sts ! j) = map fst (take (Suc j) ?pairs)"
      and ss: "b_ss (sts ! j) = map snd (take (Suc j) ?pairs)"
      by (simp_all add: none retained_def bfgs_init_def)
    show "length (b_ys (sts ! j)) = Suc j" "length (b_ss (sts ! j)) = Suc j"
      using j by (simp_all add: ys ss length_correction_pairs)
  }
  {
    fix m assume some: "maxcor = Some m" and pos: "0 < m"
    then have "maxcor = None \<or> (\<exists>m. maxcor = Some m \<and> 0 < m)" by simp
    from history_general [OF assms(1) this j]
    show ys: "b_ys (sts ! j) = last_n (nat m) (map fst (take (Suc j) ?pairs))"
      and ss: "b_ss (sts ! j) = last_n (nat m) (map snd (take (Suc j) ?pairs))"
      by (simp_all add: some retained_def slice_from_positive [OF pos] bfgs_init_def)
    show "length (b_ys (sts ! j)) \<le> nat m" "length (b_ss (sts ! j)) \<le> nat m"
      unfolding ys ss by (rule length_last_n)+
  }
  {
    fix line_search maxiter st'
    assume ret: "bfgs_method ip f x line_search maxiter tol maxcor H callback kept = Inr st'"
    from returned_history [OF ret]
    show "\<exists>n run. n \<le> nat maxiter \<and>
                 iterations n (bfgs_body ip f (as_callable line_search) tol maxcor H callback)
                   (bfgs_init f x kept) = Some run \<and>
                 b_ys st' = b_ys (last (bfgs_init f x kept # run)) \<and>
                 b_ss st' = b_ss (last (bfgs_init f x kept # run))" .
    fix m assume some: "maxcor = Some m" and pos: "0 < m"
    from returned_bounded [OF ret [unfolded some] pos]
    show "length (b_ys st') \<le> nat m" "length (b_ss st') \<le> nat m" by simp_all
  }
qed


lemma bfgs_multiply_one:
  "bfgs_multiply times [- 4] [- 4] 4 None = Inr 4"
  by (simp add: bfgs_multiply_def times_def lincomb_def Let_def)

lemma bfgs_multiply_two:
  "bfgs_multiply times [- 4, - 2] [- 4, - 2] 2 None = Inr 2"
  by (simp add: bfgs_multiply_def times_def lincomb_def Let_def upt_rec eval_nat_numeral)

lemma bfgs_step_1:
  "bfgs_body times quadratic (as_callable (Fixed (1 / 2))) (1 / 1000) (Some 2) None
       (Some append_iterate) (bfgs_init quadratic 8 [])
     = Inr (Continue \<lparr> b_x = 4, b_grad_x = 4, b_ss = [- 4], b_ys = [- 4], b_kept = [4] \<rparr>)"
  by (simp add: bfgs_body_def bfgs_search_dir_def bfgs_init_def bfgs_multiply_Nil quadratic_def
        times_def lincomb_def slice_from_def append_iterate_def Let_def)

lemma bfgs_step_2:
  "bfgs_body times quadratic (as_callable (Fixed (1 / 2))) (1 / 1000) (Some 2) None
       (Some append_iterate)
       \<lparr> b_x = 4, b_grad_x = 4, b_ss = [- 4], b_ys = [- 4], b_kept = [4] \<rparr>
     = Inr (Continue \<lparr> b_x = 2, b_grad_x = 2, b_ss = [- 4, - 2], b_ys = [- 4, - 2],
                       b_kept = [4, 2] \<rparr>)"
  by (simp add: bfgs_body_def bfgs_search_dir_def bfgs_multiply_one quadratic_def
        times_def lincomb_def slice_from_def append_iterate_def Let_def)

lemma bfgs_step_3:
  "bfgs_body times quadratic (as_callable (Fixed (1 / 2))) (1 / 1000) (Some 2) None
       (Some append_iterate)
       \<lparr> b_x = 2, b_grad_x = 2, b_ss = [- 4, - 2], b_ys = [- 4, - 2], b_kept = [4, 2] \<rparr>
     = Inr (Continue \<lparr> b_x = 1, b_grad_x = 1, b_ss = [- 2, - 1], b_ys = [- 2, - 1],
                       b_kept = [4, 2, 1] \<rparr>)"
  by (simp add: bfgs_body_def bfgs_search_dir_def bfgs_multiply_two quadratic_def
        times_def lincomb_def slice_from_def append_iterate_def Let_def)


text \<open>
  Three iterations on the test problem from \<open>x = 8\<close> with step length \<open>1/2\<close> and
  \<open>maxcor = 2\<close>: the pairs are \<open>(-4, -4)\<close>, \<open>(-2, -2)\<close> and \<open>(-1, -1)\<close>, and the last two are
  kept; \<open>bfgs_method\<close> with \<open>maxiter = 3\<close> returns that state.
\<close>

theorem history_bounded_fifo_witness:
  "iterations 3
       (bfgs_body times quadratic (as_callable (Fixed (1 / 2))) (1 / 1000) (Some 2) None
          (Some append_iterate))
       (bfgs_init quadratic 8 [])
     = Some [\<lparr> b_x = 4, b_grad_x = 4, b_ss = [- 4], b_ys = [- 4], b_kept = [4] \<rparr>,
             \<lparr> b_x = 2, b_grad_x = 2, b_ss = [- 4, - 2], b_ys = [- 4, - 2], b_kept = [4, 2] \<rparr>,
             \<lparr> b_x = 1, b_grad_x = 1, b_ss = [- 2, - 1], b_ys = [- 2, - 1],
               b_kept = [4, 2, 1] \<rparr>] \<and>
   correction_pairs (bfgs_init quadratic 8 ([] :: real list))
       [\<lparr> b_x = 4, b_grad_x = 4, b_ss = [- 4], b_ys = [- 4], b_kept = [4] \<rparr>,
        \<lparr> b_x = 2, b_grad_x = 2, b_ss = [- 4, - 2], b_ys = [- 4, - 2], b_kept = [4, 2] \<rparr>,
        \<lparr> b_x = 1, b_grad_x = 1, b_ss = [- 2, - 1], b_ys = [- 2, - 1], b_kept = [4, 2, 1] \<rparr>]
     = [(- 4, - 4), (- 2, - 2), (- 1, - 1)] \<and>
   last_n (nat 2) [- 4, - 2, - 1 :: real] = [- 2, - 1] \<and>
   b_ys \<lparr> b_x = 1, b_grad_x = 1, b_ss = [- 2, - 1], b_ys = [- 2, - 1],
          b_kept = [4, 2, 1 :: real] \<rparr> = last_n (nat 2) [- 4, - 2, - 1 :: real] \<and>
   b_ss \<lparr> b_x = 1, b_grad_x = 1, b_ss = [- 2, - 1], b_ys = [- 2, - 1],
          b_kept = [4, 2, 1 :: real] \<rparr> = last_n (nat 2) [- 4, - 2, - 1 :: real] \<and>
   bfgs_method times quadratic 8 (Fixed (1 / 2)) 3 (1 / 1000) (Some 2) None
       (Some append_iterate) []
     = Inr \<lparr> b_x = 1, b_grad_x = 1, b_ss = [- 2, - 1], b_ys = [- 2, - 1],
             b_kept = [4, 2, 1] \<rparr> \<and>
   length (b_ys \<lparr> b_x = 1 :: real, b_grad_x = 1, b_ss = [- 2, - 1], b_ys = [- 2, - 1],
          b_kept = [4, 2, 1 :: real] \<rparr>) \<le> nat 2 \<and>
   length (b_ss \<lparr> b_x = 1 :: real, b_grad_x = 1, b_ss = [- 2, - 1], b_ys = [- 2, - 1],
          b_kept = [4, 2, 1 :: real] \<rparr>) \<le> nat 2"
proof -
  let ?body = "bfgs_body times quadratic (as_callable (Fixed (1 / 2))) (1 / 1000) (Some 2) None
          (Some append_iterate)"
  let ?st0 = "bfgs_init quadratic 8 ([] :: real list)"
  let ?s1 = "\<lparr> b_x = 4 :: real, b_grad_x = 4, b_ss = [- 4], b_ys = [- 4], b_kept = [4 :: real] \<rparr>"
  let ?s2 = "\<lparr> b_x = 2 :: real, b_grad_x = 2, b_ss = [- 4, - 2], b_ys = [- 4, - 2],
              b_kept = [4, 2 :: real] \<rparr>"
  let ?s3 = "\<lparr> b_x = 1 :: real, b_grad_x = 1, b_ss = [- 2, - 1], b_ys = [- 2, - 1],
              b_kept = [4, 2, 1 :: real] \<rparr>"
  have run: "iterations 3 ?body ?st0 = Some [?s1, ?s2, ?s3]"
    by (simp add: eval_nat_numeral bfgs_step_1 bfgs_step_2 bfgs_step_3 del: as_callable.simps)
  have pairs: "correction_pairs ?st0 [?s1, ?s2, ?s3] = [(- 4, - 4), (- 2, - 2), (- 1, - 1)]"
    by (simp add: bfgs_init_def quadratic_def)
  have l: "last_n (nat 2) [- 4, - 2, - 1 :: real] = [- 2, - 1]"
    by (simp add: last_n_def)
  have ret: "bfgs_method times quadratic 8 (Fixed (1 / 2)) 3 (1 / 1000) (Some 2) None
       (Some append_iterate) ([] :: real list) = Inr ?s3"
  proof -
    have "f_in_domain quadratic (8 :: real)" by (simp add: quadratic_def)
    then show ?thesis
      by (simp add: bfgs_method_def eval_nat_numeral bfgs_step_1 bfgs_step_2 bfgs_step_3
            del: as_callable.simps)
  qed
  have "(2 :: nat) < 3" by simp
  note all = history_bounded_fifo [OF run this]
  note h = all [THEN conjunct2, THEN conjunct1, rule_format, of 2, unfolded pairs]
  note r = all [THEN conjunct2, THEN conjunct2, rule_format, OF ret, THEN conjunct2,
                rule_format, of 2]
  have "b_ys ?s3 = last_n (nat 2) [- 4, - 2, - 1 :: real]"
    and "b_ss ?s3 = last_n (nat 2) [- 4, - 2, - 1 :: real]"
    using h by simp_all
  moreover have "length (b_ys ?s3) \<le> nat 2" and "length (b_ss ?s3) \<le> nat 2"
    using r by simp_all
  ultimately show ?thesis using run pairs l ret by blast
qed

subsection \<open>The search direction of \<open>bfgs_method\<close>\<close>

text \<open>
  The loops over the indices with the arrays \<open>alphas\<close> and \<open>rhos\<close> compute what the two
  passes over the pairs compute. In every state of a run the two lists have the same
  length.
\<close>

lemma length_backward_pass: "length (snd (backward_pass ip ps r)) = length ps"
  by (induction ps arbitrary: r) (auto simp: Let_def case_prod_beta)

lemma lincomb_step: "lincomb 1 r c v = r + c *\<^sub>R v"
  by (simp add: lincomb_def)

lemma backward_loop_zero:
  "\<exists>i \<in> set idx. ip (y ! i) (s ! i) = 0 \<Longrightarrow>
     backward_loop ip s y idx r alphas rhos = Inl ZeroDivisionError"
  by (induction idx arbitrary: r alphas rhos) (auto simp: Let_def)

lemma backward_loop_pass:
  assumes "k \<le> length s" "length y = length s" "length alphas = length s"
    "length rhos = length s" "\<forall>i<k. ip (y ! i) (s ! i) \<noteq> 0"
  shows "backward_loop ip s y (rev [0..<k]) r alphas rhos =
           Inr (fst (backward_pass ip (rev (take k (zip s y))) r),
                map snd (rev (snd (backward_pass ip (rev (take k (zip s y))) r))) @ drop k alphas,
                map fst (rev (snd (backward_pass ip (rev (take k (zip s y))) r))) @ drop k rhos)"
  using assms
proof (induction k arbitrary: r alphas rhos)
  case 0
  then show ?case by simp
next
  case (Suc k)
  define \<rho> where "\<rho> = 1 / ip (y ! k) (s ! k)"
  define \<alpha> where "\<alpha> = \<rho> * ip (s ! k) r"
  define r' where "r' = r - \<alpha> *\<^sub>R y ! k"
  define alphas' where "alphas' = alphas[k := \<alpha>]"
  define rhos' where "rhos' = rhos[k := \<rho>]"
  have k: "k < length s" "k < length y" "k < length alphas" "k < length rhos"
    using Suc.prems by simp_all
  have nz: "ip (y ! k) (s ! k) \<noteq> 0" using Suc.prems(5) by simp
  have step: "backward_loop ip s y (rev [0..<Suc k]) r alphas rhos =
              backward_loop ip s y (rev [0..<k]) r' alphas' rhos'"
    using nz k by (simp add: Let_def lincomb_step \<rho>_def \<alpha>_def r'_def alphas'_def rhos'_def)
  have IH: "backward_loop ip s y (rev [0..<k]) r' alphas' rhos' =
           Inr (fst (backward_pass ip (rev (take k (zip s y))) r'),
                map snd (rev (snd (backward_pass ip (rev (take k (zip s y))) r'))) @ drop k alphas',
                map fst (rev (snd (backward_pass ip (rev (take k (zip s y))) r'))) @ drop k rhos')"
    using Suc.prems by (intro Suc.IH) (simp_all add: alphas'_def rhos'_def)
  have tk: "rev (take (Suc k) (zip s y)) = (s ! k, y ! k) # rev (take k (zip s y))"
    using k by (simp add: take_Suc_conv_app_nth)
  have da: "drop k alphas' = \<alpha> # drop (Suc k) alphas"
    using k by (simp add: alphas'_def Cons_nth_drop_Suc [symmetric])
  have dr: "drop k rhos' = \<rho> # drop (Suc k) rhos"
    using k by (simp add: rhos'_def Cons_nth_drop_Suc [symmetric])
  show ?case
    unfolding step IH tk da dr
    by (simp add: Let_def \<rho>_def [symmetric] \<alpha>_def [symmetric] r'_def [symmetric]
          split: prod.splits)
qed


lemma forward_loop_pass:
  assumes "length y = length s" "length alphas = length s" "length rhos = length s"
    and "k \<le> length s"
  shows "forward_loop ip s y [k..<length s] r alphas rhos =
           forward_pass ip (drop k (zip (zip s y) (zip rhos alphas))) r"
  using assms(4)
proof (induction "length s - k" arbitrary: k r)
  case 0
  then show ?case using assms(1-3) by simp
next
  case (Suc d)
  then have k: "k < length s" by simp
  let ?all = "zip (zip s y) (zip rhos alphas)"
  have len: "length ?all = length s" using assms(1-3) by simp
  have dk: "drop k ?all = ((s ! k, y ! k), (rhos ! k, alphas ! k)) # drop (Suc k) ?all"
    using k len assms(1-3) by (simp add: Cons_nth_drop_Suc [symmetric])
  have "d = length s - Suc k" using Suc.hyps(2) by simp
  from Suc.hyps(1) [OF this] k
  have IH: "forward_loop ip s y [Suc k..<length s] r' alphas rhos =
            forward_pass ip (drop (Suc k) ?all) r'" for r'
    by simp
  show ?case
    using k by (simp add: upt_conv_Cons dk IH Let_def lincomb_step)
qed

lemma bfgs_body_lengths:
  assumes "bfgs_body ip f ls tol maxcor H callback st = Inr (Continue st')"
    and "length (b_ys st) = length (b_ss st)"
  shows "length (b_ys st') = length (b_ss st')"
  using assms
  by (auto simp: bfgs_body_def Let_def slice_from_def split: sum.splits if_splits option.splits)

lemma iterations_lengths:
  assumes "iterations k (bfgs_body ip f ls tol maxcor H callback) st = Some sts"
    and "length (b_ys st) = length (b_ss st)"
  shows "\<forall>st' \<in> set sts. length (b_ys st') = length (b_ss st')"
  using assms
proof (induction k arbitrary: st sts)
  case 0
  then show ?case by simp
next
  case (Suc k)
  from Suc.prems(1) obtain st1 sts' where
    step: "bfgs_body ip f ls tol maxcor H callback st = Inr (Continue st1)"
    and rest: "iterations k (bfgs_body ip f ls tol maxcor H callback) st1 = Some sts'"
    and sts: "sts = st1 # sts'"
    by (auto split: sum.splits outcome.splits option.splits)
  from bfgs_body_lengths [OF step Suc.prems(2)] Suc.IH [OF rest] sts show ?case by simp
qed

text \<open>
  Claim C4. In a state of \<open>bfgs_method\<close> (its lists have the same length) the search
  direction of line 256 is the negation of the two-loop recursion, as the spec words it,
  applied to the current gradient, the pairs \<open>(s\<^sub>i, y\<^sub>i)\<close> being the entries of \<open>ys\<close> (the
  displacements) with those of \<open>ss\<close> (the gradient differences), oldest first; unless
  some \<open>\<langle>y\<^sub>i, s\<^sub>i\<rangle>\<close> is zero, where \<open>\<rho>\<^sub>i\<close> does not exist and the code raises
  \<open>ZeroDivisionError\<close>.
\<close>

theorem search_direction_is_two_loop:
  assumes "length (b_ys st) = length (b_ss st)"
  shows "bfgs_search_dir ip H st =
           (if list_ex (\<lambda>(s, y). ip y s = 0) (zip (b_ys st) (b_ss st))
            then Inl ZeroDivisionError
            else Inr (- two_loop_recursion ip (zip (b_ys st) (b_ss st)) H (b_grad_x st)))"
proof -
  let ?s = "b_ys st" and ?y = "b_ss st" and ?g = "b_grad_x st"
  let ?n = "length ?s"
  let ?zero = "replicate ?n (0 :: real)"
  have len: "length ?y = ?n" using assms by simp
  show ?thesis
  proof (cases "list_ex (\<lambda>(s, y). ip y s = 0) (zip ?s ?y)")
    case True
    then obtain i where "i < ?n" "ip (?y ! i) (?s ! i) = 0"
      using len by (auto simp: list_ex_iff set_zip)
    then have "\<exists>i \<in> set (rev [0..<?n]). ip (?y ! i) (?s ! i) = 0" by auto
    from backward_loop_zero [of "rev [0..<?n]" ip ?y ?s, OF this]
    show ?thesis using True assms
      by (simp add: bfgs_search_dir_def bfgs_multiply_def)
  next
    case False
    then have nz: "\<forall>i<?n. ip (?y ! i) (?s ! i) \<noteq> 0"
      using len by (auto simp: list_ex_iff set_zip)
    define bp where "bp = backward_pass ip (rev (zip ?s ?y)) ?g"
    define alphas where "alphas = map snd (rev (snd bp))"
    define rhos where "rhos = map fst (rev (snd bp))"
    define r' where "r' = (case H of None \<Rightarrow> fst bp | Some H0 \<Rightarrow> H0 (fst bp))"
    have lcs: "length (snd bp) = ?n"
      using len by (simp add: bp_def length_backward_pass)
    have bwd: "backward_loop ip ?s ?y (rev [0..<?n]) ?g ?zero ?zero = Inr (fst bp, alphas, rhos)"
      using backward_loop_pass [of ?n ?s ?y ?zero ?zero ip ?g] len nz
      by (simp add: bp_def alphas_def rhos_def)
    have "forward_loop ip ?s ?y [0..<?n] r' alphas rhos =
            forward_pass ip (drop 0 (zip (zip ?s ?y) (zip rhos alphas))) r'"
      using len lcs by (intro forward_loop_pass) (simp_all add: alphas_def rhos_def)
    also have "zip rhos alphas = rev (snd bp)"
      by (simp add: alphas_def rhos_def zip_map_fst_snd)
    also have "zip (zip ?s ?y) (rev (snd bp)) = rev (zip (rev (zip ?s ?y)) (snd bp))"
      using len lcs zip_rev [of "zip ?s ?y" "rev (snd bp)"] by simp
    finally have forw: "forward_loop ip ?s ?y [0..<?n] r' alphas rhos =
            forward_pass ip (rev (zip (rev (zip ?s ?y)) (snd bp))) r'"
      by simp
    have two: "two_loop_recursion ip (zip ?s ?y) H ?g =
                 forward_pass ip (rev (zip (rev (zip ?s ?y)) (snd bp))) r'"
      unfolding two_loop_recursion_def Let_def case_prod_beta r'_def bp_def by (rule refl)
    have "bfgs_multiply ip ?s ?y ?g H = Inr (forward_loop ip ?s ?y [0..<?n] r' alphas rhos)"
      using len by (simp add: bfgs_multiply_def bwd r'_def Let_def)
    then show ?thesis using False by (simp add: bfgs_search_dir_def forw two)
  qed
qed


text \<open>
  The state after two iterations of the run above, where the recursion gives \<open>2\<close> and the
  direction is \<open>-2\<close>; the initial state with the estimate \<open>r \<mapsto> 3r + 1\<close>; and a state
  whose only pair has \<open>\<langle>y, s\<rangle> = 0\<close>.
\<close>

theorem search_direction_is_two_loop_witness:
  "length (b_ys \<lparr> b_x = 2 :: real, b_grad_x = 2, b_ss = [- 4, - 2], b_ys = [- 4, - 2],
                  b_kept = [4, 2 :: real] \<rparr>)
     = length (b_ss \<lparr> b_x = 2 :: real, b_grad_x = 2, b_ss = [- 4, - 2], b_ys = [- 4, - 2],
                       b_kept = [4, 2 :: real] \<rparr>) \<and>
   two_loop_recursion times [(- 4, - 4), (- 2, - 2)] None 2 = 2 \<and>
   bfgs_search_dir times None
       \<lparr> b_x = 2 :: real, b_grad_x = 2, b_ss = [- 4, - 2], b_ys = [- 4, - 2],
         b_kept = [4, 2 :: real] \<rparr> = Inr (- 2) \<and>
   two_loop_recursion times [] (Some (\<lambda>r. 3 * r + 1)) 8 = 25 \<and>
   bfgs_search_dir times (Some (\<lambda>r. 3 * r + 1)) (bfgs_init quadratic 8 ([] :: real list))
     = Inr (- 25) \<and>
   bfgs_search_dir times None
       \<lparr> b_x = 2 :: real, b_grad_x = 2, b_ss = [0], b_ys = [- 4], b_kept = [4 :: real] \<rparr>
     = Inl ZeroDivisionError"
proof -
  let ?st = "\<lparr> b_x = 2 :: real, b_grad_x = 2, b_ss = [- 4, - 2], b_ys = [- 4, - 2],
               b_kept = [4, 2 :: real] \<rparr>"
  let ?bad = "\<lparr> b_x = 2 :: real, b_grad_x = 2, b_ss = [0], b_ys = [- 4],
                b_kept = [4 :: real] \<rparr>"
  have 1: "length (b_ys ?st) = length (b_ss ?st)" by simp
  have 2: "two_loop_recursion times [(- 4, - 4), (- 2, - 2)] None 2 = 2"
    by (simp add: two_loop_recursion_def times_def Let_def)
  let ?init = "bfgs_init quadratic 8 ([] :: real list)"
  have 0: "length (b_ys ?init) = length (b_ss ?init)" by (simp add: bfgs_init_def)
  have 3: "two_loop_recursion times [] (Some (\<lambda>r. 3 * r + 1)) 8 = 25"
    by (simp add: two_loop_recursion_def times_def Let_def)
  have 4: "bfgs_search_dir times None ?st = Inr (- 2)"
    using search_direction_is_two_loop [OF 1, of times None] 2 by (simp add: times_def)
  have 5: "bfgs_search_dir times (Some (\<lambda>r. 3 * r + 1)) ?init = Inr (- 25)"
    using search_direction_is_two_loop [OF 0, of times "Some (\<lambda>r. 3 * r + 1)"] 3
    by (simp add: bfgs_init_def quadratic_def)
  have 6: "length (b_ys ?bad) = length (b_ss ?bad)" by simp
  have 7: "bfgs_search_dir times None ?bad = Inl ZeroDivisionError"
    using search_direction_is_two_loop [OF 6, of times None] by (simp add: times_def)
  from 1 2 3 4 5 7 show ?thesis by blast
qed

end
